theory Spec2Isabelle
  imports Main
begin

section \<open>The control centre front end: \<^verbatim>\<open>src/ui/app.js\<close>\<close>

text \<open>
  The front end is single threaded and event driven. Every JavaScript handler runs to its
  next \<^verbatim>\<open>await\<close> without interruption, so an \<^verbatim>\<open>async\<close> function is modelled as the
  sequence of its synchronous segments: the segment up to the \<^verbatim>\<open>await\<close> is a function on
  the world, and what follows the \<^verbatim>\<open>await\<close> is a continuation, stored with the call that
  is in flight and run when the environment settles that call.

  The world holds the module-level \<^verbatim>\<open>state\<close> object, the cached \<^verbatim>\<open>elements\<close>, the timer
  variables, the live timers of the host, the calls that are in flight, a log of every
  command delegated by \<^verbatim>\<open>invoke\<close>, and the rejections nobody handled. Console output is
  not modelled. A slider event carries the integer that \<^verbatim>\<open>parseInt(e.target.value)\<close>
  yields.
\<close>

subsection \<open>Values exchanged with the backend\<close>

datatype tauri_api = TauriV2 | TauriV1 | NoTauri

record network_state =
  wifi_enabled :: bool
  wifi_connected :: bool
  wifi_ssid :: "string option"
  bluetooth_enabled :: bool
  bluetooth_connected :: bool

record all_states =
  volume_volume :: int
  volume_muted :: bool
  brightness_brightness :: int
  brightness_max_brightness :: int
  network :: network_state
  display_night_light_enabled :: bool

datatype jsval = VNull | VBool bool | VInt int | VNetwork network_state | VAll all_states

datatype command =
    Get_all_states
  | Get_volume
  | Set_volume int
  | Toggle_mute
  | Get_mute_status
  | Get_brightness
  | Set_brightness int
  | Get_wifi_status
  | Set_wifi_enabled bool
  | Get_bluetooth_status
  | Set_bluetooth_enabled bool
  | Get_night_light_status
  | Set_night_light_enabled bool
  | Suspend_system
  | Close_window

type_synonym error = string

datatype outcome = Resolved jsval | Rejected error

text \<open>
  What the bridge function does when it is called: it takes the call and answers later,
  or it throws at once. And what is already decided about a call when \<^verbatim>\<open>invoke\<close> has
  returned its promise: nothing, the error thrown at once, or the answer of the mock.
\<close>

datatype bridge_reply = Accepts | ThrowsNow error

datatype fate = Open | Thrown error | Mocked jsval

text \<open>\<^verbatim>\<open>mockInvoke\<close>: its \<^verbatim>\<open>mockState\<close> is rebuilt on every call, so each answer is fixed.\<close>

definition mock_network :: network_state where
  "mock_network = \<lparr>wifi_enabled = True, wifi_connected = True, wifi_ssid = Some ''MockNetwork'',
     bluetooth_enabled = False, bluetooth_connected = False\<rparr>"

fun mockInvoke :: "command \<Rightarrow> jsval" where
  "mockInvoke Get_all_states = VAll \<lparr>volume_volume = 50, volume_muted = False,
     brightness_brightness = 75, brightness_max_brightness = 100, network = mock_network,
     display_night_light_enabled = False\<rparr>"
| "mockInvoke Get_volume = VInt 50"
| "mockInvoke (Set_volume v) = VInt v"
| "mockInvoke Toggle_mute = VBool True"
| "mockInvoke Get_mute_status = VBool False"
| "mockInvoke Get_brightness = VInt 75"
| "mockInvoke (Set_brightness v) = VInt v"
| "mockInvoke Get_wifi_status = VNetwork mock_network"
| "mockInvoke (Set_wifi_enabled b) = VBool b"
| "mockInvoke Get_bluetooth_status = VBool False"
| "mockInvoke (Set_bluetooth_enabled b) = VBool b"
| "mockInvoke Get_night_light_status = VBool False"
| "mockInvoke (Set_night_light_enabled b) = VBool b"
| "mockInvoke Suspend_system = VNull"
| "mockInvoke Close_window = VNull"

subsection \<open>The \<^verbatim>\<open>state\<close> object, the cached elements and the world\<close>

record app_state =
  volume :: int
  muted :: bool
  brightness :: int
  wifiEnabled :: bool
  wifiConnected :: bool
  wifiSsid :: "string option"
  bluetoothEnabled :: bool
  nightLightEnabled :: bool
  isLoading :: bool
  pendingOperations :: "string set"

datatype severity = Info | Success | Error

record toast_el =
  toast_text :: string
  toast_type :: severity
  toast_show :: bool

datatype focus = VolumeSlider | BrightnessSlider | OtherElement

text \<open>
  Of each element only what the script writes is kept. \<^verbatim>\<open>loadingOverlay\<close> and \<^verbatim>\<open>toast\<close>
  may be \<^verbatim>\<open>null\<close> (the script tests them), hence the options; the overlay's value says
  whether it carries the class \<^verbatim>\<open>hidden\<close>. The three style changes of the mute icon move
  together and are one flag.
\<close>

record dom =
  wifiTile_enabled :: bool
  bluetoothTile_enabled :: bool
  nightLightTile_enabled :: bool
  volumeSlider_value :: int
  volumeFill_width :: int
  volumeValue_text :: int
  volumeMuted_shown :: bool
  brightnessSlider_value :: int
  brightnessFill_width :: int
  brightnessValue_text :: int
  wifiStatus_text :: string
  bluetoothStatus_text :: string
  nightLightStatus_text :: string
  loadingOverlay :: "bool option"
  toast :: "toast_el option"
  activeElement :: focus

text \<open>What a timer runs when it fires, and what runs when an awaited call settles.\<close>

datatype task = T_setVolume int | T_setBrightness int | T_wifiStatus | T_suspend | T_toastHide

datatype cont =
    K_loadInitialState
  | K_setVolume
  | K_toggleMute
  | K_refreshVolume1
  | K_refreshVolume2
  | K_setBrightness
  | K_refreshBrightness
  | K_toggleWifi bool
  | K_wifiStatus
  | K_toggleBluetooth bool
  | K_toggleNightLight bool
  | K_suspend
  | K_closeWindow bool

record world =
  tauri :: tauri_api
  bridge :: "command \<Rightarrow> bridge_reply"
  now :: nat
  state :: app_state
  elements :: dom
  timers :: "(nat \<times> nat \<times> task) list"
  next_timer :: nat
  volumeDebounceTimer :: "nat option"
  brightnessDebounceTimer :: "nat option"
  toastTimer :: "nat option"
  inflight :: "(nat \<times> command \<times> cont \<times> fate) list"
  next_call :: nat
  calls :: "(nat \<times> command) list"
  unhandled :: "error list"

subsection \<open>Host timers\<close>

text \<open>
  \<^verbatim>\<open>setTimeout\<close> registers a task that may run once the clock has reached its due time
  and returns a fresh handle; \<^verbatim>\<open>clearTimeout\<close> drops the task with that handle and does
  nothing for a handle that is no longer live.
\<close>

definition setTimeout :: "task \<Rightarrow> nat \<Rightarrow> world \<Rightarrow> nat \<times> world" where
  "setTimeout f delay w =
     (next_timer w,
      w\<lparr>timers := timers w @ [(next_timer w, now w + delay, f)],
        next_timer := Suc (next_timer w)\<rparr>)"

definition clearTimeout :: "nat \<Rightarrow> world \<Rightarrow> world" where
  "clearTimeout i w = w\<lparr>timers := filter (\<lambda>t. fst t \<noteq> i) (timers w)\<rparr>"

definition clear_if_set :: "nat option \<Rightarrow> world \<Rightarrow> world" where
  "clear_if_set v w = (case v of None \<Rightarrow> w | Some i \<Rightarrow> clearTimeout i w)"

subsection \<open>UI helpers\<close>

definition showLoading :: "world \<Rightarrow> world" where
  "showLoading w =
     (let w1 = w\<lparr>state := (state w)\<lparr>isLoading := True\<rparr>\<rparr>
      in case loadingOverlay (elements w1) of
           None \<Rightarrow> w1
         | Some h \<Rightarrow> w1\<lparr>elements := (elements w1)\<lparr>loadingOverlay := Some False\<rparr>\<rparr>)"

definition hideLoading :: "world \<Rightarrow> world" where
  "hideLoading w =
     (let w1 = w\<lparr>state := (state w)\<lparr>isLoading := False\<rparr>\<rparr>
      in case loadingOverlay (elements w1) of
           None \<Rightarrow> w1
         | Some h \<Rightarrow> w1\<lparr>elements := (elements w1)\<lparr>loadingOverlay := Some True\<rparr>\<rparr>)"

definition showToast :: "string \<Rightarrow> severity \<Rightarrow> world \<Rightarrow> world" where
  "showToast message type w =
     (case toast (elements w) of
        None \<Rightarrow> w
      | Some t \<Rightarrow>
          (let w1 = clear_if_set (toastTimer w) w;
               w2 = w1\<lparr>elements := (elements w1)\<lparr>toast :=
                       Some \<lparr>toast_text = message, toast_type = type, toast_show = True\<rparr>\<rparr>\<rparr>;
               r = setTimeout T_toastHide 2500 w2
           in (snd r)\<lparr>toastTimer := Some (fst r)\<rparr>))"

definition toastHide :: "world \<Rightarrow> world" where
  "toastHide w =
     (case toast (elements w) of
        None \<Rightarrow> w
      | Some t \<Rightarrow> w\<lparr>elements := (elements w)\<lparr>toast := Some (t\<lparr>toast_show := False\<rparr>)\<rparr>\<rparr>)"

subsection \<open>The gateway: \<^verbatim>\<open>invoke\<close>\<close>

text \<open>
  \<^verbatim>\<open>invoke\<close> is an \<^verbatim>\<open>async\<close> function whose body is one \<^verbatim>\<open>try\<close>/\<^verbatim>\<open>catch\<close>. Its
  synchronous part hands the command to its delegate: the v2 bridge, the v1 bridge or,
  without a bridge, \<^verbatim>\<open>mockInvoke\<close>. The delegation is logged with the time, and the call
  waits in \<open>inflight\<close> together with the continuation of the caller that awaits it. If
  the bridge throws at once, the \<^verbatim>\<open>catch\<close> block runs at once: it shows the toast and
  throws again, which rejects the promise; the caller is resumed with that rejection
  like with any other. If the bridge rejects later, the \<^verbatim>\<open>catch\<close> block runs then
  (\<open>invoke_settled\<close>), before the caller is resumed.
\<close>

definition fate_of :: "command \<Rightarrow> world \<Rightarrow> fate" where
  "fate_of c w =
     (if tauri w = NoTauri then Mocked (mockInvoke c)
      else case bridge w c of Accepts \<Rightarrow> Open | ThrowsNow e \<Rightarrow> Thrown e)"

definition register :: "command \<Rightarrow> cont \<Rightarrow> fate \<Rightarrow> world \<Rightarrow> world" where
  "register c k f w =
     w\<lparr>inflight := inflight w @ [(next_call w, c, k, f)],
       next_call := Suc (next_call w),
       calls := calls w @ [(now w, c)]\<rparr>"

definition invoke :: "command \<Rightarrow> cont \<Rightarrow> world \<Rightarrow> world" where
  "invoke c k w =
     (case fate_of c w of
        Open \<Rightarrow> register c k Open w
      | Thrown e \<Rightarrow> register c k (Thrown e) (showToast (''Error: '' @ e) Error w)
      | Mocked v \<Rightarrow> register c k (Mocked v) w)"

fun invoke_settled :: "fate \<Rightarrow> outcome \<Rightarrow> world \<Rightarrow> world" where
  "invoke_settled Open (Rejected e) w = showToast (''Error: '' @ e) Error w"
| "invoke_settled f r w = w"

text \<open>The outcomes with which the environment can settle a call of a given fate.\<close>

fun admits :: "fate \<Rightarrow> outcome \<Rightarrow> bool" where
  "admits Open r = True"
| "admits (Thrown e) r = (r = Rejected e)"
| "admits (Mocked v) r = (r = Resolved v)"

subsection \<open>UI updates\<close>

definition updateVolumeUI :: "world \<Rightarrow> world" where
  "updateVolumeUI w =
     w\<lparr>elements := (elements w)\<lparr>volumeSlider_value := volume (state w),
          volumeFill_width := volume (state w),
          volumeValue_text := volume (state w),
          volumeMuted_shown := muted (state w)\<rparr>\<rparr>"

definition updateBrightnessUI :: "world \<Rightarrow> world" where
  "updateBrightnessUI w =
     w\<lparr>elements := (elements w)\<lparr>brightnessSlider_value := brightness (state w),
          brightnessFill_width := brightness (state w),
          brightnessValue_text := brightness (state w)\<rparr>\<rparr>"

text \<open>JavaScript truthiness of a value that is a string or \<^verbatim>\<open>null\<close>.\<close>

fun truthy :: "string option \<Rightarrow> bool" where
  "truthy None = False"
| "truthy (Some s) = (s \<noteq> [])"

text \<open>Assigning a string or \<^verbatim>\<open>null\<close> to \<^verbatim>\<open>textContent\<close>; \<^verbatim>\<open>null\<close> gives the empty text.\<close>

fun textContent :: "string option \<Rightarrow> string" where
  "textContent None = []"
| "textContent (Some s) = s"

definition wifi_text :: "app_state \<Rightarrow> string" where
  "wifi_text s =
     (if wifiEnabled s \<and> wifiConnected s \<and> truthy (wifiSsid s) then textContent (wifiSsid s)
      else if wifiEnabled s then ''On''
      else ''Off'')"

definition updateWifiUI :: "world \<Rightarrow> world" where
  "updateWifiUI w =
     w\<lparr>elements := (elements w)\<lparr>wifiTile_enabled := wifiEnabled (state w),
          wifiStatus_text := wifi_text (state w)\<rparr>\<rparr>"

definition updateBluetoothUI :: "world \<Rightarrow> world" where
  "updateBluetoothUI w =
     w\<lparr>elements := (elements w)\<lparr>bluetoothTile_enabled := bluetoothEnabled (state w),
          bluetoothStatus_text := (if bluetoothEnabled (state w) then ''On'' else ''Off'')\<rparr>\<rparr>"

definition updateNightLightUI :: "world \<Rightarrow> world" where
  "updateNightLightUI w =
     w\<lparr>elements := (elements w)\<lparr>nightLightTile_enabled := nightLightEnabled (state w),
          nightLightStatus_text := (if nightLightEnabled (state w) then ''On'' else ''Off'')\<rparr>\<rparr>"

definition updateAllUI :: "world \<Rightarrow> world" where
  "updateAllUI w =
     updateNightLightUI (updateBluetoothUI (updateWifiUI (updateBrightnessUI (updateVolumeUI w))))"

subsection \<open>Sliders: continuous feedback and debounced commit\<close>

definition handleVolumeInput :: "int \<Rightarrow> world \<Rightarrow> world" where
  "handleVolumeInput v w =
     w\<lparr>state := (state w)\<lparr>volume := v\<rparr>,
       elements := (elements w)\<lparr>volumeFill_width := v, volumeValue_text := v\<rparr>\<rparr>"

definition handleVolumeChange :: "int \<Rightarrow> world \<Rightarrow> world" where
  "handleVolumeChange v w =
     (let w1 = clear_if_set (volumeDebounceTimer w) w;
          r = setTimeout (T_setVolume v) 50 w1
      in (snd r)\<lparr>volumeDebounceTimer := Some (fst r)\<rparr>)"

definition toggleMute :: "world \<Rightarrow> world" where
  "toggleMute w = invoke Toggle_mute K_toggleMute w"

definition refreshVolume :: "world \<Rightarrow> world" where
  "refreshVolume w = invoke Get_volume K_refreshVolume1 w"

definition handleBrightnessInput :: "int \<Rightarrow> world \<Rightarrow> world" where
  "handleBrightnessInput v w =
     w\<lparr>state := (state w)\<lparr>brightness := v\<rparr>,
       elements := (elements w)\<lparr>brightnessFill_width := v, brightnessValue_text := v\<rparr>\<rparr>"

definition handleBrightnessChange :: "int \<Rightarrow> world \<Rightarrow> world" where
  "handleBrightnessChange v w =
     (let w1 = clear_if_set (brightnessDebounceTimer w) w;
          r = setTimeout (T_setBrightness v) 50 w1
      in (snd r)\<lparr>brightnessDebounceTimer := Some (fst r)\<rparr>)"

definition refreshBrightness :: "world \<Rightarrow> world" where
  "refreshBrightness w = invoke Get_brightness K_refreshBrightness w"

subsection \<open>Toggles\<close>

definition acquire :: "string \<Rightarrow> world \<Rightarrow> world" where
  "acquire k w = w\<lparr>state := (state w)\<lparr>pendingOperations := insert k (pendingOperations (state w))\<rparr>\<rparr>"

definition release :: "string \<Rightarrow> world \<Rightarrow> world" where
  "release k w = w\<lparr>state := (state w)\<lparr>pendingOperations := pendingOperations (state w) - {k}\<rparr>\<rparr>"

definition toggleWifi :: "world \<Rightarrow> world" where
  "toggleWifi w =
     (if ''wifi'' \<in> pendingOperations (state w) then w
      else
        (let w1 = acquire ''wifi'' w;
             newState = (\<not> wifiEnabled (state w1));
             w2 = w1\<lparr>elements := (elements w1)\<lparr>wifiTile_enabled := newState\<rparr>\<rparr>
         in invoke (Set_wifi_enabled newState) (K_toggleWifi newState) w2))"

fun toggleWifi_settled :: "bool \<Rightarrow> outcome \<Rightarrow> world \<Rightarrow> world" where
  "toggleWifi_settled newState (Resolved v) w =
     release ''wifi''
       (snd (setTimeout T_wifiStatus 1000 (w\<lparr>state := (state w)\<lparr>wifiEnabled := newState\<rparr>\<rparr>)))"
| "toggleWifi_settled newState (Rejected e) w =
     release ''wifi''
       (updateWifiUI (w\<lparr>state := (state w)\<lparr>wifiEnabled := (\<not> wifiEnabled (state w))\<rparr>\<rparr>))"

definition toggleBluetooth :: "world \<Rightarrow> world" where
  "toggleBluetooth w =
     (if ''bluetooth'' \<in> pendingOperations (state w) then w
      else
        (let w1 = acquire ''bluetooth'' w;
             newState = (\<not> bluetoothEnabled (state w1));
             w2 = w1\<lparr>elements := (elements w1)\<lparr>bluetoothTile_enabled := newState\<rparr>\<rparr>
         in invoke (Set_bluetooth_enabled newState) (K_toggleBluetooth newState) w2))"

fun toggleBluetooth_settled :: "bool \<Rightarrow> outcome \<Rightarrow> world \<Rightarrow> world" where
  "toggleBluetooth_settled newState (Resolved v) w =
     release ''bluetooth''
       (updateBluetoothUI (w\<lparr>state := (state w)\<lparr>bluetoothEnabled := newState\<rparr>\<rparr>))"
| "toggleBluetooth_settled newState (Rejected e) w =
     release ''bluetooth''
       (updateBluetoothUI
          (w\<lparr>state := (state w)\<lparr>bluetoothEnabled := (\<not> bluetoothEnabled (state w))\<rparr>\<rparr>))"

definition toggleNightLight :: "world \<Rightarrow> world" where
  "toggleNightLight w =
     (if ''nightLight'' \<in> pendingOperations (state w) then w
      else
        (let w1 = acquire ''nightLight'' w;
             newState = (\<not> nightLightEnabled (state w1));
             w2 = w1\<lparr>elements := (elements w1)\<lparr>nightLightTile_enabled := newState\<rparr>\<rparr>
         in invoke (Set_night_light_enabled newState) (K_toggleNightLight newState) w2))"

fun toggleNightLight_settled :: "bool \<Rightarrow> outcome \<Rightarrow> world \<Rightarrow> world" where
  "toggleNightLight_settled newState (Resolved v) w =
     release ''nightLight''
       (updateNightLightUI (w\<lparr>state := (state w)\<lparr>nightLightEnabled := newState\<rparr>\<rparr>))"
| "toggleNightLight_settled newState (Rejected e) w =
     release ''nightLight''
       (updateNightLightUI
          (w\<lparr>state := (state w)\<lparr>nightLightEnabled := (\<not> nightLightEnabled (state w))\<rparr>\<rparr>))"

subsection \<open>Window control and suspend\<close>

text \<open>
  \<^verbatim>\<open>closeWindow\<close> swallows a failure of its call. The flag of \<open>K_closeWindow\<close> says whether
  \<^verbatim>\<open>suspendSystem\<close> awaits it; if so the rest of \<^verbatim>\<open>suspendSystem\<close> runs next, which only
  starts the timer of the suspend command. Nothing in that \<^verbatim>\<open>try\<close> block can fail, so its
  \<^verbatim>\<open>catch\<close> has no branch here.
\<close>

definition closeWindow :: "bool \<Rightarrow> world \<Rightarrow> world" where
  "closeWindow from_suspend w = invoke Close_window (K_closeWindow from_suspend) w"

definition closeWindow_settled :: "bool \<Rightarrow> outcome \<Rightarrow> world \<Rightarrow> world" where
  "closeWindow_settled from_suspend r w =
     (if from_suspend then snd (setTimeout T_suspend 100 w) else w)"

definition suspendSystem :: "world \<Rightarrow> world" where
  "suspendSystem w = closeWindow True (showToast ''Suspending...'' Success w)"

definition loadInitialState :: "world \<Rightarrow> world" where
  "loadInitialState w = invoke Get_all_states K_loadInitialState (showLoading w)"

subsection \<open>What follows each \<^verbatim>\<open>await\<close>\<close>

text \<open>
  The result is \<open>None\<close> where the backend answers with a value of another shape than the
  command's (a number for \<^verbatim>\<open>toggle_mute\<close>, say): the typed state of this model cannot
  hold it. In \<^verbatim>\<open>loadInitialState\<close> every answer that is not a full snapshot makes the
  property reads throw inside the \<^verbatim>\<open>try\<close>, which the \<^verbatim>\<open>catch\<close> turns into the toast.
\<close>

fun loadInitialState_settled :: "outcome \<Rightarrow> world \<Rightarrow> world" where
  "loadInitialState_settled (Resolved (VAll a)) w =
     hideLoading (updateAllUI (w\<lparr>state := (state w)\<lparr>
        volume := volume_volume a,
        muted := volume_muted a,
        brightness := brightness_brightness a,
        wifiEnabled := wifi_enabled (network a),
        wifiConnected := wifi_connected (network a),
        wifiSsid := wifi_ssid (network a),
        bluetoothEnabled := bluetooth_enabled (network a),
        nightLightEnabled := display_night_light_enabled a\<rparr>\<rparr>))"
| "loadInitialState_settled r w =
     hideLoading (showToast ''Failed to load system state'' Error w)"

fun setVolume_settled :: "outcome \<Rightarrow> world \<Rightarrow> world" where
  "setVolume_settled (Resolved v) w = w"
| "setVolume_settled (Rejected e) w = refreshVolume w"

fun toggleMute_settled :: "outcome \<Rightarrow> world \<Rightarrow> world option" where
  "toggleMute_settled (Resolved (VBool b)) w =
     Some (updateVolumeUI (w\<lparr>state := (state w)\<lparr>muted := b\<rparr>\<rparr>))"
| "toggleMute_settled (Resolved v) w = None"
| "toggleMute_settled (Rejected e) w = Some w"

fun refreshVolume_settled1 :: "outcome \<Rightarrow> world \<Rightarrow> world option" where
  "refreshVolume_settled1 (Resolved (VInt n)) w =
     Some (invoke Get_mute_status K_refreshVolume2 (w\<lparr>state := (state w)\<lparr>volume := n\<rparr>\<rparr>))"
| "refreshVolume_settled1 (Resolved v) w = None"
| "refreshVolume_settled1 (Rejected e) w = Some w"

fun refreshVolume_settled2 :: "outcome \<Rightarrow> world \<Rightarrow> world option" where
  "refreshVolume_settled2 (Resolved (VBool b)) w =
     Some (updateVolumeUI (w\<lparr>state := (state w)\<lparr>muted := b\<rparr>\<rparr>))"
| "refreshVolume_settled2 (Resolved v) w = None"
| "refreshVolume_settled2 (Rejected e) w = Some w"

fun setBrightness_settled :: "outcome \<Rightarrow> world \<Rightarrow> world" where
  "setBrightness_settled (Resolved v) w = w"
| "setBrightness_settled (Rejected e) w = refreshBrightness w"

fun refreshBrightness_settled :: "outcome \<Rightarrow> world \<Rightarrow> world option" where
  "refreshBrightness_settled (Resolved (VInt n)) w =
     Some (updateBrightnessUI (w\<lparr>state := (state w)\<lparr>brightness := n\<rparr>\<rparr>))"
| "refreshBrightness_settled (Resolved v) w = None"
| "refreshBrightness_settled (Rejected e) w = Some w"

text \<open>
  The two deferred callbacks, of \<^verbatim>\<open>toggleWifi\<close> and of \<^verbatim>\<open>suspendSystem\<close>, await
  \<^verbatim>\<open>invoke\<close> outside any \<^verbatim>\<open>try\<close>: a rejection ends the callback's promise, which nobody
  holds.
\<close>

definition unhandledRejection :: "error \<Rightarrow> world \<Rightarrow> world" where
  "unhandledRejection e w = w\<lparr>unhandled := unhandled w @ [e]\<rparr>"

fun wifiStatus_settled :: "outcome \<Rightarrow> world \<Rightarrow> world option" where
  "wifiStatus_settled (Resolved (VNetwork n)) w =
     Some (updateWifiUI (w\<lparr>state := (state w)\<lparr>
        wifiEnabled := wifi_enabled n,
        wifiConnected := wifi_connected n,
        wifiSsid := wifi_ssid n\<rparr>\<rparr>))"
| "wifiStatus_settled (Resolved v) w = None"
| "wifiStatus_settled (Rejected e) w = Some (unhandledRejection e w)"

fun suspend_settled :: "outcome \<Rightarrow> world \<Rightarrow> world" where
  "suspend_settled (Resolved v) w = w"
| "suspend_settled (Rejected e) w = unhandledRejection e w"

fun resume :: "cont \<Rightarrow> outcome \<Rightarrow> world \<Rightarrow> world option" where
  "resume K_loadInitialState r w = Some (loadInitialState_settled r w)"
| "resume K_setVolume r w = Some (setVolume_settled r w)"
| "resume K_toggleMute r w = toggleMute_settled r w"
| "resume K_refreshVolume1 r w = refreshVolume_settled1 r w"
| "resume K_refreshVolume2 r w = refreshVolume_settled2 r w"
| "resume K_setBrightness r w = Some (setBrightness_settled r w)"
| "resume K_refreshBrightness r w = refreshBrightness_settled r w"
| "resume (K_toggleWifi newState) r w = Some (toggleWifi_settled newState r w)"
| "resume K_wifiStatus r w = wifiStatus_settled r w"
| "resume (K_toggleBluetooth newState) r w = Some (toggleBluetooth_settled newState r w)"
| "resume (K_toggleNightLight newState) r w = Some (toggleNightLight_settled newState r w)"
| "resume K_suspend r w = Some (suspend_settled r w)"
| "resume (K_closeWindow from_suspend) r w = Some (closeWindow_settled from_suspend r w)"

fun run_task :: "task \<Rightarrow> world \<Rightarrow> world" where
  "run_task (T_setVolume v) w = invoke (Set_volume v) K_setVolume w"
| "run_task (T_setBrightness v) w = invoke (Set_brightness v) K_setBrightness w"
| "run_task T_wifiStatus w = invoke Get_wifi_status K_wifiStatus w"
| "run_task T_suspend w = invoke Suspend_system K_suspend w"
| "run_task T_toastHide w = toastHide w"

subsection \<open>Keyboard\<close>

datatype key = Escape | ArrowUp | ArrowDown | OtherKey

text \<open>
  An arrow key writes the stepped value to the focused slider and dispatches \<^verbatim>\<open>input\<close>
  and \<^verbatim>\<open>change\<close> on it; both handlers run at once and read the slider's value. The
  bounds that the page's markup may put on a slider are outside the script and are not
  modelled.
\<close>

definition stepVolume :: "int \<Rightarrow> world \<Rightarrow> world" where
  "stepVolume v w =
     handleVolumeChange v (handleVolumeInput v (w\<lparr>elements := (elements w)\<lparr>volumeSlider_value := v\<rparr>\<rparr>))"

definition stepBrightness :: "int \<Rightarrow> world \<Rightarrow> world" where
  "stepBrightness v w =
     handleBrightnessChange v
       (handleBrightnessInput v (w\<lparr>elements := (elements w)\<lparr>brightnessSlider_value := v\<rparr>\<rparr>))"

fun handleKeyDown :: "key \<Rightarrow> world \<Rightarrow> world" where
  "handleKeyDown Escape w = closeWindow False w"
| "handleKeyDown ArrowUp w =
     (case activeElement (elements w) of
        VolumeSlider \<Rightarrow> stepVolume (min 100 (volumeSlider_value (elements w) + 5)) w
      | BrightnessSlider \<Rightarrow> stepBrightness (min 100 (brightnessSlider_value (elements w) + 5)) w
      | OtherElement \<Rightarrow> w)"
| "handleKeyDown ArrowDown w =
     (case activeElement (elements w) of
        VolumeSlider \<Rightarrow> stepVolume (max 0 (volumeSlider_value (elements w) - 5)) w
      | BrightnessSlider \<Rightarrow> stepBrightness (max 1 (brightnessSlider_value (elements w) - 5)) w
      | OtherElement \<Rightarrow> w)"
| "handleKeyDown OtherKey w = w"

subsection \<open>The event loop\<close>

text \<open>
  The environment offers the events below: the listeners registered by
  \<^verbatim>\<open>setupEventListeners\<close> and \<^verbatim>\<open>setupTauriEvents\<close>, the passing of time, the firing of a
  live timer that is due, and the settling of a call in flight. A user's slider event
  comes with the slider already at the new value. \<open>step\<close> is \<open>None\<close> for an event that
  cannot happen: a timer that is not live or not yet due, a call that is not in flight,
  an outcome other than the one already decided for the call (the error thrown at once,
  the answer of \<^verbatim>\<open>mockInvoke\<close>), and without a bridge the \<^verbatim>\<open>window-shown\<close> event, whose
  listener is then not registered.

  \<open>DOMContentLoaded\<close> stands for the part of the start-up handler from
  \<^verbatim>\<open>loadInitialState\<close> on; what that handler does after the load, \<^verbatim>\<open>hideLoading\<close> once
  more, changes nothing after the \<^verbatim>\<open>finally\<close> of \<^verbatim>\<open>loadInitialState\<close>.
\<close>

datatype event =
    VolumeInput int
  | VolumeChange int
  | BrightnessInput int
  | BrightnessChange int
  | MuteClick
  | WifiClick
  | BluetoothClick
  | NightLightClick
  | SuspendClick
  | CloseClick
  | KeyDown key
  | Focus focus
  | DOMContentLoaded
  | WindowShown
  | Advance nat
  | Fire nat
  | Settle nat outcome

definition fire :: "nat \<Rightarrow> world \<Rightarrow> world option" where
  "fire i w =
     (case find (\<lambda>t. fst t = i) (timers w) of
        None \<Rightarrow> None
      | Some t \<Rightarrow>
          if now w < fst (snd t) then None
          else Some (run_task (snd (snd t)) (clearTimeout i w)))"

definition settle :: "nat \<Rightarrow> outcome \<Rightarrow> world \<Rightarrow> world option" where
  "settle c r w =
     (case find (\<lambda>p. fst p = c) (inflight w) of
        None \<Rightarrow> None
      | Some p \<Rightarrow>
          if admits (snd (snd (snd p))) r
          then resume (fst (snd (snd p))) r
                 (invoke_settled (snd (snd (snd p))) r
                    (w\<lparr>inflight := filter (\<lambda>q. fst q \<noteq> c) (inflight w)\<rparr>))
          else None)"

fun step :: "event \<Rightarrow> world \<Rightarrow> world option" where
  "step (VolumeInput v) w =
     Some (handleVolumeInput v (w\<lparr>elements := (elements w)\<lparr>volumeSlider_value := v\<rparr>\<rparr>))"
| "step (VolumeChange v) w =
     Some (handleVolumeChange v (w\<lparr>elements := (elements w)\<lparr>volumeSlider_value := v\<rparr>\<rparr>))"
| "step (BrightnessInput v) w =
     Some (handleBrightnessInput v (w\<lparr>elements := (elements w)\<lparr>brightnessSlider_value := v\<rparr>\<rparr>))"
| "step (BrightnessChange v) w =
     Some (handleBrightnessChange v (w\<lparr>elements := (elements w)\<lparr>brightnessSlider_value := v\<rparr>\<rparr>))"
| "step MuteClick w = Some (toggleMute w)"
| "step WifiClick w = Some (toggleWifi w)"
| "step BluetoothClick w = Some (toggleBluetooth w)"
| "step NightLightClick w = Some (toggleNightLight w)"
| "step SuspendClick w = Some (suspendSystem w)"
| "step CloseClick w = Some (closeWindow False w)"
| "step (KeyDown k) w = Some (handleKeyDown k w)"
| "step (Focus f) w = Some (w\<lparr>elements := (elements w)\<lparr>activeElement := f\<rparr>\<rparr>)"
| "step DOMContentLoaded w = Some (loadInitialState w)"
| "step WindowShown w = (if tauri w = NoTauri then None else Some (loadInitialState w))"
| "step (Advance d) w = Some (w\<lparr>now := now w + d\<rparr>)"
| "step (Fire i) w = fire i w"
| "step (Settle c r) w = settle c r w"

fun run :: "event list \<Rightarrow> world \<Rightarrow> world option" where
  "run [] w = Some w"
| "run (e # es) w = (case step e w of None \<Rightarrow> None | Some w' \<Rightarrow> run es w')"

subsection \<open>The world at start\<close>

definition initial_state :: app_state where
  "initial_state = \<lparr>volume = 50, muted = False, brightness = 50, wifiEnabled = False,
     wifiConnected = False, wifiSsid = None, bluetoothEnabled = False,
     nightLightEnabled = False, isLoading = True, pendingOperations = {}\<rparr>"

text \<open>
  The page itself is markup outside the script, so the elements found by
  \<^verbatim>\<open>cacheElements\<close> are a parameter, like the bridge. \<open>plain_page\<close> is a page with every
  element present and \<open>w0\<close> the world at start on that page with a v2 bridge that takes
  every call, used where a concrete world is needed.
\<close>

definition init_world :: "tauri_api \<Rightarrow> (command \<Rightarrow> bridge_reply) \<Rightarrow> dom \<Rightarrow> world" where
  "init_world api br page = \<lparr>tauri = api, bridge = br, now = 0, state = initial_state,
     elements = page,
     timers = [], next_timer = 1, volumeDebounceTimer = None, brightnessDebounceTimer = None,
     toastTimer = None, inflight = [], next_call = 1, calls = [], unhandled = []\<rparr>"

definition plain_page :: dom where
  "plain_page = \<lparr>wifiTile_enabled = False, bluetoothTile_enabled = False,
     nightLightTile_enabled = False, volumeSlider_value = 50, volumeFill_width = 50,
     volumeValue_text = 50, volumeMuted_shown = False, brightnessSlider_value = 50,
     brightnessFill_width = 50, brightnessValue_text = 50, wifiStatus_text = ''Off'',
     bluetoothStatus_text = ''Off'', nightLightStatus_text = ''Off'',
     loadingOverlay = Some False,
     toast = Some \<lparr>toast_text = [], toast_type = Info, toast_show = False\<rparr>,
     activeElement = OtherElement\<rparr>"

definition w0 :: world where
  "w0 = init_world TauriV2 (\<lambda>c. Accepts) plain_page"

subsection \<open>Notions used to state the properties\<close>

text \<open>The three guarded binary controls, with the event, key, field, tile and command of each.\<close>

datatype control = WiFi | Bluetooth | NightLight

fun click :: "control \<Rightarrow> event" where
  "click WiFi = WifiClick"
| "click Bluetooth = BluetoothClick"
| "click NightLight = NightLightClick"

fun op_name :: "control \<Rightarrow> string" where
  "op_name WiFi = ''wifi''"
| "op_name Bluetooth = ''bluetooth''"
| "op_name NightLight = ''nightLight''"

fun stored :: "control \<Rightarrow> world \<Rightarrow> bool" where
  "stored WiFi w = wifiEnabled (state w)"
| "stored Bluetooth w = bluetoothEnabled (state w)"
| "stored NightLight w = nightLightEnabled (state w)"

fun shown :: "control \<Rightarrow> world \<Rightarrow> bool" where
  "shown WiFi w = wifiTile_enabled (elements w)"
| "shown Bluetooth w = bluetoothTile_enabled (elements w)"
| "shown NightLight w = nightLightTile_enabled (elements w)"

fun mutation :: "control \<Rightarrow> bool \<Rightarrow> command" where
  "mutation WiFi b = Set_wifi_enabled b"
| "mutation Bluetooth b = Set_bluetooth_enabled b"
| "mutation NightLight b = Set_night_light_enabled b"

definition is_pending :: "control \<Rightarrow> world \<Rightarrow> bool" where
  "is_pending k w = (op_name k \<in> pendingOperations (state w))"

text \<open>The environment can settle a call of command \<open>c\<close> made in world \<open>w\<close> with outcome \<open>r\<close>.\<close>

definition answers :: "command \<Rightarrow> outcome \<Rightarrow> world \<Rightarrow> bool" where
  "answers c r w = admits (fate_of c w) r"

text \<open>Handles are handed out in increasing order, so those in use lie below the next one.\<close>

definition fresh_calls :: "world \<Rightarrow> bool" where
  "fresh_calls w = list_all (\<lambda>p. fst p < next_call w) (inflight w)"

text \<open>The two sliders, with the event, timer task, timer variable and command of each.\<close>

datatype slider = Volume | Brightness

fun change :: "slider \<Rightarrow> int \<Rightarrow> event" where
  "change Volume v = VolumeChange v"
| "change Brightness v = BrightnessChange v"

fun input :: "slider \<Rightarrow> int \<Rightarrow> event" where
  "input Volume v = VolumeInput v"
| "input Brightness v = BrightnessInput v"

fun debounce_task :: "slider \<Rightarrow> int \<Rightarrow> task" where
  "debounce_task Volume v = T_setVolume v"
| "debounce_task Brightness v = T_setBrightness v"

fun commit :: "slider \<Rightarrow> int \<Rightarrow> command" where
  "commit Volume v = Set_volume v"
| "commit Brightness v = Set_brightness v"

fun slot :: "slider \<Rightarrow> world \<Rightarrow> nat option" where
  "slot Volume w = volumeDebounceTimer w"
| "slot Brightness w = brightnessDebounceTimer w"

fun level :: "slider \<Rightarrow> world \<Rightarrow> int" where
  "level Volume w = volume (state w)"
| "level Brightness w = brightness (state w)"

fun is_debounce :: "slider \<Rightarrow> task \<Rightarrow> bool" where
  "is_debounce Volume (T_setVolume v) = True"
| "is_debounce Brightness (T_setBrightness v) = True"
| "is_debounce s t = False"

definition debounce_timers :: "slider \<Rightarrow> world \<Rightarrow> (nat \<times> nat \<times> task) list" where
  "debounce_timers s w = filter (\<lambda>t. is_debounce s (snd (snd t))) (timers w)"

text \<open>
  What the host and the handlers keep true of the timers: handles are distinct and below
  the next one, and a live debounce timer of a slider is the one its variable names.
\<close>

definition timers_ok :: "slider \<Rightarrow> world \<Rightarrow> bool" where
  "timers_ok s w =
     (distinct (map fst (timers w)) \<and>
      list_all (\<lambda>t. fst t < next_timer w) (timers w) \<and>
      list_all (\<lambda>t. slot s w = Some (fst t)) (debounce_timers s w))"

text \<open>No debounce timer of the slider is due: the host cannot fire one now.\<close>

definition quiet :: "slider \<Rightarrow> world \<Rightarrow> bool" where
  "quiet s w = list_all (\<lambda>t. now w < fst (snd t)) (debounce_timers s w)"

text \<open>
  A burst of commit events: the first with value \<open>v\<close>, each further one after the given
  gap and with the given value. \<open>trace\<close> lists the worlds a run passes through.
\<close>

fun burst :: "slider \<Rightarrow> int \<Rightarrow> (nat \<times> int) list \<Rightarrow> event list" where
  "burst s v [] = [change s v]"
| "burst s v (g # gs) = change s v # Advance (fst g) # burst s (snd g) gs"

fun final_value :: "int \<Rightarrow> (nat \<times> int) list \<Rightarrow> int" where
  "final_value v [] = v"
| "final_value v (g # gs) = final_value (snd g) gs"

fun trace :: "event list \<Rightarrow> world \<Rightarrow> world list" where
  "trace [] w = []"
| "trace (e # es) w = (case step e w of None \<Rightarrow> [] | Some w' \<Rightarrow> w' # trace es w')"

text \<open>Events that only move a slider or let time pass.\<close>

fun is_passive :: "event \<Rightarrow> bool" where
  "is_passive (VolumeInput x) = True"
| "is_passive (BrightnessInput x) = True"
| "is_passive (Advance d) = True"
| "is_passive e = False"

text \<open>What an input event of the slider writes to the stored level.\<close>

fun write1 :: "slider \<Rightarrow> event \<Rightarrow> int \<Rightarrow> int" where
  "write1 Volume (VolumeInput x) l = x"
| "write1 Brightness (BrightnessInput x) l = x"
| "write1 s e l = l"

text \<open>
  The WiFi status text as the specification words it: the SSID exactly when WiFi is
  enabled and connected and an SSID is present, \<^verbatim>\<open>On\<close> when WiFi is enabled otherwise,
  \<^verbatim>\<open>Off\<close> when it is disabled. A world is in step when its page displays that text for
  its state.
\<close>

definition claimed_wifi_text :: "app_state \<Rightarrow> string" where
  "claimed_wifi_text s =
     (case wifiSsid s of
        Some n \<Rightarrow>
          if wifiEnabled s \<and> wifiConnected s \<and> n \<noteq> [] then n
          else if wifiEnabled s then ''On'' else ''Off''
      | None \<Rightarrow> if wifiEnabled s then ''On'' else ''Off'')"

definition wifi_in_step :: "world \<Rightarrow> bool" where
  "wifi_in_step w = (wifiStatus_text (elements w) = claimed_wifi_text (state w))"

text \<open>
  Between two worlds the WiFi status is \<open>kept_or_drawn\<close> when the later page displays the
  text of the later state, or text and state are both as they were, as far as the text
  depends on the state.
\<close>

definition kept_or_drawn :: "world \<Rightarrow> world \<Rightarrow> bool" where
  "kept_or_drawn w w' =
     (wifiStatus_text (elements w') = wifi_text (state w') \<or>
      (wifiStatus_text (elements w') = wifiStatus_text (elements w) \<and>
       wifi_text (state w') = wifi_text (state w)))"

text \<open>The event resolves a call that \<^verbatim>\<open>toggleWifi\<close> awaits.\<close>

fun is_wifi_toggle :: "cont \<Rightarrow> bool" where
  "is_wifi_toggle (K_toggleWifi b) = True"
| "is_wifi_toggle k = False"

fun resolves_wifi_toggle :: "event \<Rightarrow> world \<Rightarrow> bool" where
  "resolves_wifi_toggle (Settle c r) w =
     (case r of
        Rejected x \<Rightarrow> False
      | Resolved v \<Rightarrow>
          (case find (\<lambda>p. fst p = c) (inflight w) of
             None \<Rightarrow> False
           | Some p \<Rightarrow> is_wifi_toggle (fst (snd (snd p)))))"
| "resolves_wifi_toggle e w = False"

text \<open>A snapshot of the backend with WiFi enabled and connected to the network Home.\<close>

definition home_snapshot :: all_states where
  "home_snapshot = \<lparr>volume_volume = 50, volume_muted = False, brightness_brightness = 75,
     brightness_max_brightness = 100,
     network = \<lparr>wifi_enabled = True, wifi_connected = True, wifi_ssid = Some ''Home'',
       bluetooth_enabled = False, bluetooth_connected = False\<rparr>,
     display_night_light_enabled = False\<rparr>"

lemmas handler_defs =
  setTimeout_def clearTimeout_def clear_if_set_def showLoading_def hideLoading_def
  showToast_def toastHide_def fate_of_def register_def invoke_def updateVolumeUI_def
  updateBrightnessUI_def
  wifi_text_def updateWifiUI_def updateBluetoothUI_def updateNightLightUI_def updateAllUI_def
  handleVolumeInput_def handleVolumeChange_def toggleMute_def refreshVolume_def
  handleBrightnessInput_def handleBrightnessChange_def refreshBrightness_def
  acquire_def release_def toggleWifi_def toggleBluetooth_def toggleNightLight_def
  closeWindow_def closeWindow_settled_def suspendSystem_def loadInitialState_def
  unhandledRejection_def stepVolume_def stepBrightness_def fire_def settle_def

lemmas start_defs = w0_def init_world_def initial_state_def plain_page_def

section \<open>Properties\<close>

subsection \<open>What the gateway and the toast leave alone\<close>

lemma fate_of_frame [simp]:
  "fate_of c (w\<lparr>now := n\<rparr>) = fate_of c w"
  "fate_of c (w\<lparr>state := x\<rparr>) = fate_of c w"
  "fate_of c (w\<lparr>elements := y\<rparr>) = fate_of c w"
  "fate_of c (w\<lparr>timers := ts\<rparr>) = fate_of c w"
  "fate_of c (w\<lparr>next_timer := nt\<rparr>) = fate_of c w"
  "fate_of c (w\<lparr>volumeDebounceTimer := vt\<rparr>) = fate_of c w"
  "fate_of c (w\<lparr>brightnessDebounceTimer := bt\<rparr>) = fate_of c w"
  "fate_of c (w\<lparr>toastTimer := tt\<rparr>) = fate_of c w"
  "fate_of c (w\<lparr>inflight := fl\<rparr>) = fate_of c w"
  "fate_of c (w\<lparr>next_call := nc\<rparr>) = fate_of c w"
  "fate_of c (w\<lparr>calls := cs\<rparr>) = fate_of c w"
  "fate_of c (w\<lparr>unhandled := u\<rparr>) = fate_of c w"
  by (simp_all add: fate_of_def)

lemma showToast_frame [simp]:
  "tauri (showToast m t w) = tauri w"
  "bridge (showToast m t w) = bridge w"
  "now (showToast m t w) = now w"
  "state (showToast m t w) = state w"
  "volumeDebounceTimer (showToast m t w) = volumeDebounceTimer w"
  "brightnessDebounceTimer (showToast m t w) = brightnessDebounceTimer w"
  "inflight (showToast m t w) = inflight w"
  "next_call (showToast m t w) = next_call w"
  "calls (showToast m t w) = calls w"
  "unhandled (showToast m t w) = unhandled w"
  "wifiTile_enabled (elements (showToast m t w)) = wifiTile_enabled (elements w)"
  "bluetoothTile_enabled (elements (showToast m t w)) = bluetoothTile_enabled (elements w)"
  "nightLightTile_enabled (elements (showToast m t w)) = nightLightTile_enabled (elements w)"
  "volumeSlider_value (elements (showToast m t w)) = volumeSlider_value (elements w)"
  "volumeFill_width (elements (showToast m t w)) = volumeFill_width (elements w)"
  "volumeValue_text (elements (showToast m t w)) = volumeValue_text (elements w)"
  "volumeMuted_shown (elements (showToast m t w)) = volumeMuted_shown (elements w)"
  "brightnessSlider_value (elements (showToast m t w)) = brightnessSlider_value (elements w)"
  "brightnessFill_width (elements (showToast m t w)) = brightnessFill_width (elements w)"
  "brightnessValue_text (elements (showToast m t w)) = brightnessValue_text (elements w)"
  "wifiStatus_text (elements (showToast m t w)) = wifiStatus_text (elements w)"
  "bluetoothStatus_text (elements (showToast m t w)) = bluetoothStatus_text (elements w)"
  "nightLightStatus_text (elements (showToast m t w)) = nightLightStatus_text (elements w)"
  "loadingOverlay (elements (showToast m t w)) = loadingOverlay (elements w)"
  "activeElement (elements (showToast m t w)) = activeElement (elements w)"
  by (simp_all add: showToast_def clear_if_set_def clearTimeout_def setTimeout_def Let_def
        split: option.split)

lemma fate_of_showToast [simp]:
  "fate_of c (showToast m t w) = fate_of c w"
  by (simp add: fate_of_def)

lemma invoke_frame [simp]:
  "tauri (invoke c k w) = tauri w"
  "bridge (invoke c k w) = bridge w"
  "now (invoke c k w) = now w"
  "state (invoke c k w) = state w"
  "volumeDebounceTimer (invoke c k w) = volumeDebounceTimer w"
  "brightnessDebounceTimer (invoke c k w) = brightnessDebounceTimer w"
  "unhandled (invoke c k w) = unhandled w"
  "next_call (invoke c k w) = Suc (next_call w)"
  "calls (invoke c k w) = calls w @ [(now w, c)]"
  "inflight (invoke c k w) = inflight w @ [(next_call w, c, k, fate_of c w)]"
  "wifiTile_enabled (elements (invoke c k w)) = wifiTile_enabled (elements w)"
  "bluetoothTile_enabled (elements (invoke c k w)) = bluetoothTile_enabled (elements w)"
  "nightLightTile_enabled (elements (invoke c k w)) = nightLightTile_enabled (elements w)"
  "volumeSlider_value (elements (invoke c k w)) = volumeSlider_value (elements w)"
  "volumeFill_width (elements (invoke c k w)) = volumeFill_width (elements w)"
  "volumeValue_text (elements (invoke c k w)) = volumeValue_text (elements w)"
  "volumeMuted_shown (elements (invoke c k w)) = volumeMuted_shown (elements w)"
  "brightnessSlider_value (elements (invoke c k w)) = brightnessSlider_value (elements w)"
  "brightnessFill_width (elements (invoke c k w)) = brightnessFill_width (elements w)"
  "brightnessValue_text (elements (invoke c k w)) = brightnessValue_text (elements w)"
  "wifiStatus_text (elements (invoke c k w)) = wifiStatus_text (elements w)"
  "bluetoothStatus_text (elements (invoke c k w)) = bluetoothStatus_text (elements w)"
  "nightLightStatus_text (elements (invoke c k w)) = nightLightStatus_text (elements w)"
  "loadingOverlay (elements (invoke c k w)) = loadingOverlay (elements w)"
  "activeElement (elements (invoke c k w)) = activeElement (elements w)"
  by (cases "fate_of c w"; simp add: invoke_def register_def)+

lemma invoke_settled_frame [simp]:
  "invoke_settled f (Resolved v) w = w"
  "state (invoke_settled f r w) = state w"
  "now (invoke_settled f r w) = now w"
  "calls (invoke_settled f r w) = calls w"
  "unhandled (invoke_settled f r w) = unhandled w"
  "inflight (invoke_settled f r w) = inflight w"
  "next_call (invoke_settled f r w) = next_call w"
  "wifiStatus_text (elements (invoke_settled f r w)) = wifiStatus_text (elements w)"
  by (cases f; cases r; simp)+

subsection \<open>Handles and timers\<close>

lemma find_fresh:
  "list_all (\<lambda>p. fst p < (n::nat)) xs \<Longrightarrow> find (\<lambda>p. fst p = n) (xs @ [(n, c, k)]) = Some (n, c, k)"
  by (induction xs) auto

lemma filter_fresh:
  "list_all (\<lambda>p. fst p < (n::nat)) xs \<Longrightarrow> filter (\<lambda>q. fst q \<noteq> n) (xs @ [(n, c, k)]) = xs"
  by (induction xs) auto

lemma filter_below:
  "list_all (\<lambda>p. fst p < (n::nat)) xs \<Longrightarrow> filter (\<lambda>q. fst q \<noteq> n) xs = xs"
  by (induction xs) auto

lemma settle_new:
  assumes "fresh_calls w" and "admits (fate_of c w) r"
  shows "settle (next_call w) r (invoke c k w)
     = resume k r (invoke_settled (fate_of c w) r ((invoke c k w)\<lparr>inflight := inflight w\<rparr>))"
  using assms by (simp add: settle_def fresh_calls_def find_fresh filter_below)

lemma is_debounce_task [simp]: "is_debounce s (debounce_task s v)"
  by (cases s) simp_all

lemma restart_some:
  assumes "distinct (map fst xs)" and "list_all (\<lambda>t. fst t < n) xs"
    and "list_all (\<lambda>t. Some i = Some (fst t)) (filter P xs)" and "P (n, d, f)"
  shows "filter P (filter (\<lambda>t. fst t \<noteq> i) xs) = []"
    and "distinct (map fst (filter (\<lambda>t. fst t \<noteq> i) xs @ [(n, d, f)]))"
    and "list_all (\<lambda>t. fst t < Suc n) (filter (\<lambda>t. fst t \<noteq> i) xs @ [(n, d, f)])"
proof -
  have "filter P (filter (\<lambda>t. fst t \<noteq> i) xs) = []"
    using assms(3) by (induction xs) (auto split: if_splits)
  then show "filter P (filter (\<lambda>t. fst t \<noteq> i) xs) = []" .
  have "n \<notin> fst ` set xs"
    using assms(2) by (auto simp: list_all_iff)
  then show "distinct (map fst (filter (\<lambda>t. fst t \<noteq> i) xs @ [(n, d, f)]))"
    using assms(1) by (auto simp: distinct_map_filter)
  show "list_all (\<lambda>t. fst t < Suc n) (filter (\<lambda>t. fst t \<noteq> i) xs @ [(n, d, f)])"
    using assms(2) by (auto simp: list_all_iff)
qed

lemma restart_none:
  assumes "distinct (map fst xs)" and "list_all (\<lambda>t. fst t < n) xs"
    and "list_all (\<lambda>t. None = Some (fst t)) (filter P xs)" and "P (n, d, f)"
  shows "filter P xs = []"
    and "distinct (map fst (xs @ [(n, d, f)]))"
    and "list_all (\<lambda>t. fst t < Suc n) (xs @ [(n, d, f)])"
proof -
  have "filter P xs = []"
    using assms(3) by (induction xs) (auto split: if_splits)
  then show "filter P xs = []" .
  have "n \<notin> fst ` set xs"
    using assms(2) by (auto simp: list_all_iff)
  then show "distinct (map fst (xs @ [(n, d, f)]))"
    using assms(1) by auto
  show "list_all (\<lambda>t. fst t < Suc n) (xs @ [(n, d, f)])"
    using assms(2) by (auto simp: list_all_iff)
qed

lemma change_step:
  assumes "timers_ok s w"
  shows "\<exists>w'. step (change s v) w = Some w' \<and> timers_ok s w' \<and> calls w' = calls w \<and> now w' = now w \<and>
     debounce_timers s w' = [(next_timer w, now w + 50, debounce_task s v)]"
proof -
  let ?P = "\<lambda>t. is_debounce s (snd (snd t))"
  let ?new = "(next_timer w, now w + 50, debounce_task s v)"
  have d: "distinct (map fst (timers w))" and b: "list_all (\<lambda>t. fst t < next_timer w) (timers w)"
    and o: "list_all (\<lambda>t. slot s w = Some (fst t)) (filter ?P (timers w))"
    using assms by (simp_all add: timers_ok_def debounce_timers_def)
  have p: "?P ?new" by simp
  show ?thesis
  proof (cases "slot s w")
    case None
    note r = restart_none [of "timers w" "next_timer w" ?P, OF d b o [unfolded None] p]
    from None r show ?thesis
      by (cases s)
         (simp_all add: timers_ok_def debounce_timers_def handleVolumeChange_def
            handleBrightnessChange_def clear_if_set_def setTimeout_def Let_def)
  next
    case (Some i)
    note r = restart_some [of "timers w" "next_timer w" i ?P, OF d b o [unfolded Some] p]
    from Some r show ?thesis
      by (cases s)
         (simp_all add: timers_ok_def debounce_timers_def handleVolumeChange_def
            handleBrightnessChange_def clear_if_set_def clearTimeout_def setTimeout_def Let_def)
  qed
qed

lemma advance_keeps:
  "timers_ok s (w\<lparr>now := n\<rparr>) = timers_ok s w"
  "debounce_timers s (w\<lparr>now := n\<rparr>) = debounce_timers s w"
  by (cases s; simp add: timers_ok_def debounce_timers_def)+

lemma find_distinct:
  "distinct (map fst xs) \<Longrightarrow> x \<in> set xs \<Longrightarrow> find (\<lambda>t. fst t = fst x) xs = Some x"
  by (induction xs) (auto simp: rev_image_eqI)

lemma debounce_timers_invoke:
  assumes "debounce_timers s w = []"
  shows "debounce_timers s (invoke c k w) = []"
proof -
  have "debounce_timers s (showToast m t w) = []" for m t
    using assms
    by (cases s)
       (auto simp add: debounce_timers_def showToast_def clear_if_set_def clearTimeout_def
          setTimeout_def Let_def filter_empty_conv split: option.split)
  then show ?thesis
    using assms
    by (cases "fate_of c w") (simp_all add: invoke_def register_def debounce_timers_def)
qed

lemma fire_debounce:
  assumes "timers_ok s w" and "debounce_timers s w = [(i, due, debounce_task s v)]"
  shows "now w < due \<Longrightarrow> fire i w = None"
    and "due \<le> now w \<Longrightarrow> \<exists>w'. fire i w = Some w' \<and> calls w' = calls w @ [(now w, commit s v)]
           \<and> debounce_timers s w' = [] \<and> now w' = now w \<and> state w' = state w"
proof -
  have "(i, due, debounce_task s v) \<in> set (debounce_timers s w)"
    using assms(2) by simp
  then have mem: "(i, due, debounce_task s v) \<in> set (timers w)"
    by (simp add: debounce_timers_def)
  have "distinct (map fst (timers w))"
    using assms(1) by (simp add: timers_ok_def)
  from find_distinct [OF this mem]
  have f: "find (\<lambda>t. fst t = i) (timers w) = Some (i, due, debounce_task s v)"
    by simp
  show "now w < due \<Longrightarrow> fire i w = None"
    using f by (simp add: fire_def)
  have gone: "filter (\<lambda>t. is_debounce s (snd (snd t))) (filter (\<lambda>t. fst t \<noteq> i) (timers w)) = []"
  proof -
    have "filter (\<lambda>t. is_debounce s (snd (snd t))) (filter (\<lambda>t. fst t \<noteq> i) (timers w))
        = filter (\<lambda>t. fst t \<noteq> i) (debounce_timers s w)"
      by (simp add: debounce_timers_def conj_commute)
    then show ?thesis using assms(2) by simp
  qed
  show "due \<le> now w \<Longrightarrow> \<exists>w'. fire i w = Some w' \<and> calls w' = calls w @ [(now w, commit s v)]
           \<and> debounce_timers s w' = [] \<and> now w' = now w \<and> state w' = state w"
    using f gone debounce_timers_invoke [of s "clearTimeout i w"]
    by (cases s) (simp_all add: fire_def clearTimeout_def debounce_timers_def)
qed

lemma burst_run:
  assumes "timers_ok s w" and "list_all (\<lambda>g. fst g < 50) gaps"
  shows "\<exists>w' i. run (burst s v gaps) w = Some w' \<and> timers_ok s w' \<and> calls w' = calls w \<and>
      now w' = now w + sum_list (map fst gaps) \<and>
      debounce_timers s w' = [(i, now w' + 50, debounce_task s (final_value v gaps))] \<and>
      list_all (quiet s) (trace (burst s v gaps) w)"
  using assms
proof (induction gaps arbitrary: v w)
  case Nil
  from change_step [OF Nil(1), of v] obtain w' where
    "step (change s v) w = Some w'" "timers_ok s w'" "calls w' = calls w" "now w' = now w"
    "debounce_timers s w' = [(next_timer w, now w + 50, debounce_task s v)]"
    by blast
  then show ?case by (simp add: quiet_def)
next
  case (Cons g gs)
  from change_step [OF Cons.prems(1), of v] obtain w1 where w1:
    "step (change s v) w = Some w1" "timers_ok s w1" "calls w1 = calls w" "now w1 = now w"
    "debounce_timers s w1 = [(next_timer w, now w + 50, debounce_task s v)]"
    by blast
  define w2 where "w2 = w1\<lparr>now := now w1 + fst g\<rparr>"
  have ok2: "timers_ok s w2"
    using w1(2) by (simp add: w2_def advance_keeps)
  from Cons.IH [OF ok2, of "snd g"] Cons.prems(2) obtain w' i where w':
    "run (burst s (snd g) gs) w2 = Some w'" "timers_ok s w'" "calls w' = calls w2"
    "now w' = now w2 + sum_list (map fst gs)"
    "debounce_timers s w' = [(i, now w' + 50, debounce_task s (final_value (snd g) gs))]"
    "list_all (quiet s) (trace (burst s (snd g) gs) w2)"
    by auto
  have q1: "quiet s w1"
    using w1 by (simp add: quiet_def)
  have q2: "quiet s w2"
    using w1 Cons.prems(2) by (simp add: quiet_def w2_def advance_keeps)
  show ?case
    using w1 w' q1 q2 by (simp add: w2_def)
qed


subsection \<open>What the helpers leave alone\<close>

lemma wifi_text_update [simp]:
  "wifi_text (s\<lparr>volume := v\<rparr>) = wifi_text s"
  "wifi_text (s\<lparr>muted := b\<rparr>) = wifi_text s"
  "wifi_text (s\<lparr>brightness := v\<rparr>) = wifi_text s"
  "wifi_text (s\<lparr>bluetoothEnabled := b\<rparr>) = wifi_text s"
  "wifi_text (s\<lparr>nightLightEnabled := b\<rparr>) = wifi_text s"
  "wifi_text (s\<lparr>isLoading := b\<rparr>) = wifi_text s"
  "wifi_text (s\<lparr>pendingOperations := p\<rparr>) = wifi_text s"
  by (simp_all add: wifi_text_def)

lemma frame_setTimeout [simp]:
  "elements (snd (setTimeout f d w)) = elements w"
  "state (snd (setTimeout f d w)) = state w"
  by (simp_all add: setTimeout_def)

lemma frame_clear_if_set [simp]:
  "elements (clear_if_set v w) = elements w"
  "state (clear_if_set v w) = state w"
  by (simp_all add: clear_if_set_def clearTimeout_def split: option.split)

lemma frame_clearTimeout [simp]:
  "elements (clearTimeout i w) = elements w"
  "state (clearTimeout i w) = state w"
  by (simp_all add: clearTimeout_def)

lemma frame_toastHide [simp]:
  "wifiStatus_text (elements (toastHide w)) = wifiStatus_text (elements w)"
  "state (toastHide w) = state w"
  by (simp_all add: toastHide_def split: option.split)

lemma frame_loading [simp]:
  "wifiStatus_text (elements (hideLoading w)) = wifiStatus_text (elements w)"
  "wifi_text (state (hideLoading w)) = wifi_text (state w)"
  "wifiStatus_text (elements (showLoading w)) = wifiStatus_text (elements w)"
  "wifi_text (state (showLoading w)) = wifi_text (state w)"
  by (simp_all add: hideLoading_def showLoading_def Let_def split: option.split)

lemma frame_pending [simp]:
  "elements (acquire k w) = elements w"
  "wifi_text (state (acquire k w)) = wifi_text (state w)"
  "elements (release k w) = elements w"
  "wifi_text (state (release k w)) = wifi_text (state w)"
  by (simp_all add: acquire_def release_def)

lemma frame_updateUI [simp]:
  "wifiStatus_text (elements (updateVolumeUI w)) = wifiStatus_text (elements w)"
  "state (updateVolumeUI w) = state w"
  "wifiStatus_text (elements (updateBrightnessUI w)) = wifiStatus_text (elements w)"
  "state (updateBrightnessUI w) = state w"
  "wifiStatus_text (elements (updateBluetoothUI w)) = wifiStatus_text (elements w)"
  "state (updateBluetoothUI w) = state w"
  "wifiStatus_text (elements (updateNightLightUI w)) = wifiStatus_text (elements w)"
  "state (updateNightLightUI w) = state w"
  "wifiStatus_text (elements (updateWifiUI w)) = wifi_text (state w)"
  "state (updateWifiUI w) = state w"
  by (simp_all add: updateVolumeUI_def updateBrightnessUI_def updateBluetoothUI_def
        updateNightLightUI_def updateWifiUI_def)

lemmas composite_defs =
  handleVolumeInput_def handleVolumeChange_def toggleMute_def refreshVolume_def
  handleBrightnessInput_def handleBrightnessChange_def refreshBrightness_def
  toggleWifi_def toggleBluetooth_def toggleNightLight_def
  closeWindow_def closeWindow_settled_def suspendSystem_def loadInitialState_def
  unhandledRejection_def stepVolume_def stepBrightness_def updateAllUI_def Let_def

subsection \<open>Guarded toggles\<close>

lemmas toggle_defs =
  is_pending_def fresh_calls_def toggleWifi_def toggleBluetooth_def toggleNightLight_def
  acquire_def release_def answers_def Let_def settle_def find_fresh filter_fresh setTimeout_def
  updateWifiUI_def updateBluetoothUI_def updateNightLightUI_def

text \<open>
  Claim C2. A click on a guarded control whose key is in \<^verbatim>\<open>pendingOperations\<close> leaves the
  whole world as it is: no change of state or page, no call. So two clicks in a row, from
  a world where the control is not pending, do what one click does, and the log of calls
  grows by exactly one mutation, carrying the negation of the stored value.
\<close>

theorem pending_toggle_is_noop:
  "(is_pending k w \<longrightarrow> step (click k) w = Some w) \<and>
   (\<not> is_pending k w \<longrightarrow>
      run [click k, click k] w = step (click k) w \<and>
      map_option calls (run [click k, click k] w)
        = Some (calls w @ [(now w, mutation k (\<not> stored k w))]))"
  by (cases k)
     (simp_all add: is_pending_def toggleWifi_def toggleBluetooth_def toggleNightLight_def
        acquire_def Let_def)

theorem pending_toggle_is_noop_witness:
  "is_pending WiFi (toggleWifi w0) \<and> step (click WiFi) (toggleWifi w0) = Some (toggleWifi w0) \<and>
   \<not> is_pending Bluetooth w0 \<and>
   map_option calls (run [click Bluetooth, click Bluetooth] w0)
     = Some [(0, Set_bluetooth_enabled True)]"
proof -
  have p: "is_pending WiFi (toggleWifi w0)"
    by (simp add: toggle_defs start_defs)
  have q: "\<not> is_pending Bluetooth w0"
    by (simp add: toggle_defs start_defs)
  have c: "calls w0 = []" "now w0 = 0" "\<not> stored Bluetooth w0"
    by (simp_all add: start_defs)
  from pending_toggle_is_noop [of WiFi "toggleWifi w0"] p
  have "step (click WiFi) (toggleWifi w0) = Some (toggleWifi w0)"
    by blast
  moreover from pending_toggle_is_noop [of Bluetooth w0] q
  have "map_option calls (run [click Bluetooth, click Bluetooth] w0)
     = Some (calls w0 @ [(now w0, mutation Bluetooth (\<not> stored Bluetooth w0))])"
    by blast
  then have "map_option calls (run [click Bluetooth, click Bluetooth] w0)
     = Some [(0, Set_bluetooth_enabled True)]"
    by (simp only: c append_Nil mutation.simps simp_thms)
  ultimately show ?thesis
    using p q by blast
qed

text \<open>
  Claim C10. What the code does around the call of a guarded toggle. A click on a control
  that is not pending adds the control's key to \<^verbatim>\<open>pendingOperations\<close> and changes nothing
  else of \<^verbatim>\<open>state\<close>: while the call is in flight the stored value is the one from before
  the click, and only the tile's \<^verbatim>\<open>dataset.enabled\<close> shows the negated value. When the
  call resolves, the stored value becomes the negated one and the key is removed again.
  But when the call is rejected the stored value becomes the negated one as well: it is
  not only after a successful call that the store takes the toggled value.
\<close>

theorem store_value_around_toggle:
  assumes "\<not> is_pending k w" and "fresh_calls w"
  shows "\<exists>w1. step (click k) w = Some w1 \<and>
     state w1 = (state w)\<lparr>pendingOperations := insert (op_name k) (pendingOperations (state w))\<rparr> \<and>
     stored k w1 = stored k w \<and>
     shown k w1 = (\<not> stored k w) \<and>
     calls w1 = calls w @ [(now w, mutation k (\<not> stored k w))] \<and>
     (answers (mutation k (\<not> stored k w)) (Resolved v) w \<longrightarrow>
        (\<exists>w2. step (Settle (next_call w) (Resolved v)) w1 = Some w2 \<and>
           stored k w2 = (\<not> stored k w) \<and> \<not> is_pending k w2)) \<and>
     (answers (mutation k (\<not> stored k w)) (Rejected e) w \<longrightarrow>
        (\<exists>w3. step (Settle (next_call w) (Rejected e)) w1 = Some w3 \<and>
           stored k w3 = (\<not> stored k w)))"
  using assms by (cases k) (simp_all add: toggle_defs)

theorem store_value_around_toggle_witness:
  "\<not> is_pending NightLight w0 \<and> fresh_calls w0 \<and> \<not> stored NightLight w0 \<and>
   answers (Set_night_light_enabled True) (Resolved (VBool True)) w0 \<and>
   answers (Set_night_light_enabled True) (Rejected ''no gammastep'') w0 \<and>
   (\<exists>w1 w2 w3. step (click NightLight) w0 = Some w1 \<and>
      \<not> stored NightLight w1 \<and> shown NightLight w1 \<and>
      step (Settle 1 (Resolved (VBool True))) w1 = Some w2 \<and> stored NightLight w2 \<and>
      step (Settle 1 (Rejected ''no gammastep'')) w1 = Some w3 \<and> stored NightLight w3)"
proof -
  have h: "\<not> is_pending NightLight w0" "fresh_calls w0"
    by (simp_all add: toggle_defs start_defs)
  have c: "next_call w0 = 1" "\<not> stored NightLight w0"
    by (simp_all add: start_defs)
  have a: "answers (Set_night_light_enabled True) (Resolved (VBool True)) w0"
    "answers (Set_night_light_enabled True) (Rejected ''no gammastep'') w0"
    by (simp_all add: answers_def fate_of_def start_defs)
  from store_value_around_toggle [OF h, of "VBool True" "''no gammastep''"] a c
  have "\<exists>w1 w2 w3. step (click NightLight) w0 = Some w1 \<and>
      \<not> stored NightLight w1 \<and> shown NightLight w1 \<and>
      step (Settle 1 (Resolved (VBool True))) w1 = Some w2 \<and> stored NightLight w2 \<and>
      step (Settle 1 (Rejected ''no gammastep'')) w1 = Some w3 \<and> stored NightLight w3"
    by auto
  then show ?thesis
    using h a c by blast
qed

text \<open>
  Claim C1. What the code does when the mutation of a guarded toggle is rejected (a
  bridge is present, the control was not pending): the \<^verbatim>\<open>catch\<close> block negates the
  stored value, which the \<^verbatim>\<open>try\<close> block had not yet changed, so after the handler the
  stored value and the tile both hold the negation of the value from before the click,
  and the control is no longer pending. The value from before the click is not restored.
\<close>

theorem failed_toggle_leaves_store_flipped:
  assumes "\<not> is_pending k w" and "fresh_calls w"
    and "answers (mutation k (\<not> stored k w)) (Rejected e) w"
  shows "\<exists>w1 w2. step (click k) w = Some w1 \<and> stored k w1 = stored k w \<and>
     step (Settle (next_call w) (Rejected e)) w1 = Some w2 \<and>
     stored k w2 = (\<not> stored k w) \<and> shown k w2 = (\<not> stored k w) \<and> \<not> is_pending k w2"
  using assms
  by (cases k)
     (simp_all add: toggle_defs)

theorem failed_toggle_leaves_store_flipped_witness:
  "\<not> is_pending Bluetooth w0 \<and> fresh_calls w0 \<and>
   answers (Set_bluetooth_enabled True) (Rejected ''no adapter'') w0 \<and>
   \<not> stored Bluetooth w0 \<and>
   (\<exists>w1 w2. step (click Bluetooth) w0 = Some w1 \<and>
      step (Settle 1 (Rejected ''no adapter'')) w1 = Some w2 \<and> stored Bluetooth w2)"
proof -
  have c: "next_call w0 = 1" "\<not> stored Bluetooth w0"
    by (simp_all add: start_defs)
  have a: "answers (Set_bluetooth_enabled True) (Rejected ''no adapter'') w0"
    by (simp add: answers_def fate_of_def start_defs)
  have h: "\<not> is_pending Bluetooth w0" "fresh_calls w0"
    "answers (mutation Bluetooth (\<not> stored Bluetooth w0)) (Rejected ''no adapter'') w0"
    using a c by (simp_all add: toggle_defs start_defs)
  from failed_toggle_leaves_store_flipped [OF h] c
  have "\<exists>w1 w2. step (click Bluetooth) w0 = Some w1 \<and>
      step (Settle 1 (Rejected ''no adapter'')) w1 = Some w2 \<and> stored Bluetooth w2"
    by simp blast
  then show ?thesis
    using h(1,2) a c by blast
qed

subsection \<open>Debounced sliders\<close>

text \<open>
  Claim C4. Take a world whose timers are in order and a burst of commit events of one
  slider in which every gap is shorter than the quiet period of 50. Running the burst
  delegates no command, and in no world the run passes through is a debounce timer of the
  slider due. After the burst exactly one debounce timer of the slider is live; it
  carries the last value of the burst and is due 50 after the last event. The host
  cannot fire it earlier; when it fires, after a wait \<open>d\<close> of at least 50, the log
  grows by exactly one command, the slider's mutation with the last value, stamped
  \<open>d\<close> after the last event, and no debounce timer of the slider is left.
\<close>

theorem debounce_coalesces_burst:
  assumes "timers_ok s w" and "list_all (\<lambda>g. fst g < 50) gaps"
  shows "\<exists>w' i. run (burst s v gaps) w = Some w' \<and>
      calls w' = calls w \<and>
      list_all (quiet s) (trace (burst s v gaps) w) \<and>
      now w' = now w + sum_list (map fst gaps) \<and>
      debounce_timers s w' = [(i, now w' + 50, debounce_task s (final_value v gaps))] \<and>
      (\<forall>d. if d < 50 then run [Advance d, Fire i] w' = None
           else (\<exists>w''. run [Advance d, Fire i] w' = Some w'' \<and>
                  calls w'' = calls w @ [(now w' + d, commit s (final_value v gaps))] \<and>
                  debounce_timers s w'' = []))"
proof -
  from burst_run [OF assms, of v] obtain w' i where w':
    "run (burst s v gaps) w = Some w'" "timers_ok s w'" "calls w' = calls w"
    "now w' = now w + sum_list (map fst gaps)"
    "debounce_timers s w' = [(i, now w' + 50, debounce_task s (final_value v gaps))]"
    "list_all (quiet s) (trace (burst s v gaps) w)"
    by blast
  have late: "if d < 50 then run [Advance d, Fire i] w' = None
           else (\<exists>w''. run [Advance d, Fire i] w' = Some w'' \<and>
                  calls w'' = calls w @ [(now w' + d, commit s (final_value v gaps))] \<and>
                  debounce_timers s w'' = [])" for d
  proof -
    let ?x = "w'\<lparr>now := now w' + d\<rparr>"
    have ok: "timers_ok s ?x"
      and live: "debounce_timers s ?x = [(i, now w' + 50, debounce_task s (final_value v gaps))]"
      using w'(2,5) by (simp_all add: advance_keeps)
    show ?thesis
    proof (cases "d < 50")
      case True
      then have "now ?x < now w' + 50" by simp
      from fire_debounce(1) [OF ok live this] True show ?thesis by simp
    next
      case False
      then have "now w' + 50 \<le> now ?x" by simp
      from fire_debounce(2) [OF ok live this] False w'(3) show ?thesis by auto
    qed
  qed
  from w' late show ?thesis by blast
qed

theorem debounce_coalesces_burst_witness:
  "timers_ok Volume w0 \<and> list_all (\<lambda>g. fst g < 50) [(10 :: nat, 20 :: int), (10, 30)] \<and>
   (\<exists>w' i. run [VolumeChange 10, Advance 10, VolumeChange 20, Advance 10, VolumeChange 30] w0
        = Some w' \<and>
      calls w' = [] \<and> now w' = 20 \<and> debounce_timers Volume w' = [(i, 70, T_setVolume 30)] \<and>
      run [Advance 49, Fire i] w' = None \<and>
      (\<exists>w''. run [Advance 50, Fire i] w' = Some w'' \<and> calls w'' = [(70, Set_volume 30)]))"
proof -
  have h: "timers_ok Volume w0" "list_all (\<lambda>g. fst g < 50) [(10 :: nat, 20 :: int), (10, 30)]"
    by (simp_all add: timers_ok_def debounce_timers_def start_defs)
  have c: "calls w0 = []" "now w0 = 0"
    by (simp_all add: start_defs)
  from debounce_coalesces_burst [OF h, of 10] obtain w' i where w':
    "run (burst Volume 10 [(10, 20), (10, 30)]) w0 = Some w'"
    "calls w' = calls w0" "now w' = now w0 + sum_list (map fst [(10 :: nat, 20 :: int), (10, 30)])"
    "debounce_timers Volume w'
       = [(i, now w' + 50, debounce_task Volume (final_value 10 [(10, 20), (10, 30)]))]"
    and late: "\<And>d. if d < 50 then run [Advance d, Fire i] w' = None
           else (\<exists>w''. run [Advance d, Fire i] w' = Some w'' \<and>
                  calls w'' = calls w0 @ [(now w' + d,
                     commit Volume (final_value 10 [(10, 20), (10, 30)]))] \<and>
                  debounce_timers Volume w'' = [])"
    by blast
  have n: "now w' = 20"
    using w'(3) c by simp
  have r: "run [VolumeChange 10, Advance 10, VolumeChange 20, Advance 10, VolumeChange 30] w0
        = Some w'"
    using w'(1) by simp
  have t: "debounce_timers Volume w' = [(i, 70, T_setVolume 30)]"
    using w'(4) n by simp
  have a: "run [Advance 49, Fire i] w' = None"
    using late [of 49] by simp
  have b: "\<exists>w''. run [Advance 50, Fire i] w' = Some w'' \<and> calls w'' = [(70, Set_volume 30)]"
    using late [of 50] n c by auto
  from h r w'(2) c n t a b show ?thesis by auto
qed

subsection \<open>The WiFi status text\<close>

lemma claimed_wifi_text_eq:
  "wifi_text s = claimed_wifi_text s"
  by (cases "wifiSsid s") (simp_all add: wifi_text_def claimed_wifi_text_def)

lemma resume_kept:
  assumes "resume k r w = Some w'" and "\<not> (is_wifi_toggle k \<and> (\<exists>v. r = Resolved v))"
  shows "kept_or_drawn w w'"
proof (cases r)
  case (Resolved v)
  with assms show ?thesis
    by (cases k; cases v) (auto simp add: composite_defs kept_or_drawn_def)
next
  case (Rejected x)
  with assms show ?thesis
    by (cases k) (auto simp add: composite_defs kept_or_drawn_def)
qed

lemma run_task_kept:
  "kept_or_drawn w (run_task t w)"
  by (cases t) (simp_all add: kept_or_drawn_def)

lemma step_kept:
  assumes "step e w = Some w'" and "\<not> resolves_wifi_toggle e w"
  shows "kept_or_drawn w w'"
proof (cases e)
  case (Fire i)
  with assms(1) obtain t where "w' = run_task (snd (snd t)) (clearTimeout i w)"
    by (auto simp: fire_def split: option.splits if_splits)
  with run_task_kept [of "clearTimeout i w" "snd (snd t)"] show ?thesis
    by (simp add: kept_or_drawn_def)
next
  case (Settle c r)
  with assms(1) obtain p where p: "find (\<lambda>p. fst p = c) (inflight w) = Some p"
    and w': "resume (fst (snd (snd p))) r
       (invoke_settled (snd (snd (snd p))) r
          (w\<lparr>inflight := filter (\<lambda>q. fst q \<noteq> c) (inflight w)\<rparr>)) = Some w'"
    by (auto simp: settle_def split: option.splits if_splits)
  from assms(2) Settle p have "\<not> (is_wifi_toggle (fst (snd (snd p))) \<and> (\<exists>v. r = Resolved v))"
    by (cases r) simp_all
  from resume_kept [OF w' this] show ?thesis
    by (simp add: kept_or_drawn_def)
next
  case (KeyDown k)
  with assms(1) show ?thesis
    by (cases k; cases "activeElement (elements w)")
       (auto simp add: composite_defs kept_or_drawn_def)
qed (use assms(1) in \<open>auto simp add: composite_defs kept_or_drawn_def split: if_splits\<close>)

text \<open>
  Where the page and the state stay in step: \<^verbatim>\<open>updateWifiUI\<close> displays the text the
  specification words, and every event keeps a world in step, but for the one that
  resolves a call of \<^verbatim>\<open>toggleWifi\<close>: that one changes \<^verbatim>\<open>state.wifiEnabled\<close> and leaves the
  text as it was.
\<close>

lemma wifi_in_step_drawn:
  "wifi_in_step (updateWifiUI w)"
  by (simp add: wifi_in_step_def claimed_wifi_text_eq [symmetric])

lemma wifi_in_step_kept:
  assumes "step e w = Some w'" and "wifi_in_step w" and "\<not> resolves_wifi_toggle e w"
  shows "wifi_in_step w'"
  using step_kept [OF assms(1,3)] assms(2)
  by (auto simp add: kept_or_drawn_def wifi_in_step_def claimed_wifi_text_eq)

lemma wifi_toggle_resolved_keeps_text:
  "wifiStatus_text (elements (toggleWifi_settled b (Resolved v) w)) = wifiStatus_text (elements w) \<and>
   wifiEnabled (state (toggleWifi_settled b (Resolved v) w)) = b"
  by (simp add: release_def setTimeout_def)

text \<open>
  Claim C9. What the code does at a failing input: the first load answers with WiFi
  enabled and connected to Home, and the page displays \<^verbatim>\<open>Home\<close>. Then WiFi is toggled
  and the call resolves: \<^verbatim>\<open>state.wifiEnabled\<close> is false, but \<^verbatim>\<open>toggleWifi\<close> does not redraw
  as its two siblings do, and the page still displays \<^verbatim>\<open>Home\<close>: the SSID is displayed
  while WiFi is disabled, and the world is not in step. When the deferred status fetch is
  then rejected, the page displays \<^verbatim>\<open>Home\<close> for good; when it resolves with WiFi disabled,
  the page displays \<^verbatim>\<open>Off\<close>.
\<close>

theorem wifi_text_stale_after_toggle:
  "map_option (wifiStatus_text \<circ> elements)
     (run [DOMContentLoaded, Settle 1 (Resolved (VAll home_snapshot))] w0) = Some ''Home'' \<and>
   map_option (wifiEnabled \<circ> state)
     (run [DOMContentLoaded, Settle 1 (Resolved (VAll home_snapshot)),
           WifiClick, Settle 2 (Resolved (VBool False))] w0) = Some False \<and>
   map_option (wifiStatus_text \<circ> elements)
     (run [DOMContentLoaded, Settle 1 (Resolved (VAll home_snapshot)),
           WifiClick, Settle 2 (Resolved (VBool False))] w0) = Some ''Home'' \<and>
   map_option wifi_in_step
     (run [DOMContentLoaded, Settle 1 (Resolved (VAll home_snapshot)),
           WifiClick, Settle 2 (Resolved (VBool False))] w0) = Some False \<and>
   map_option (wifiStatus_text \<circ> elements)
     (run [DOMContentLoaded, Settle 1 (Resolved (VAll home_snapshot)),
           WifiClick, Settle 2 (Resolved (VBool False)),
           Advance 1000, Fire 1, Settle 3 (Rejected ''down'')] w0) = Some ''Home'' \<and>
   map_option (wifiStatus_text \<circ> elements)
     (run [DOMContentLoaded, Settle 1 (Resolved (VAll home_snapshot)),
           WifiClick, Settle 2 (Resolved (VBool False)),
           Advance 1000, Fire 1,
           Settle 3 (Resolved (VNetwork (network home_snapshot\<lparr>wifi_enabled := False,
             wifi_connected := False, wifi_ssid := None\<rparr>)))] w0) = Some ''Off''"
  by (simp add: handler_defs start_defs home_snapshot_def wifi_in_step_def
        claimed_wifi_text_def Let_def)

subsection \<open>What a debounce timer sends\<close>

lemma timers_ok_cong:
  assumes "timers w' = timers w" and "next_timer w' = next_timer w" and "slot s w' = slot s w"
  shows "timers_ok s w' = timers_ok s w" and "debounce_timers s w' = debounce_timers s w"
  using assms by (simp_all add: timers_ok_def debounce_timers_def)

lemma passive_step:
  assumes "is_passive e"
  shows "\<exists>w'. step e w = Some w' \<and> timers w' = timers w \<and> next_timer w' = next_timer w \<and>
     slot s w' = slot s w \<and> calls w' = calls w \<and> now w \<le> now w' \<and>
     level s w' = write1 s e (level s w)"
  using assms
  by (cases e; cases s)
     (simp_all add: handleVolumeInput_def handleBrightnessInput_def)

lemma change_keeps_state:
  "step (change s v) w = Some w' \<Longrightarrow> state w' = state w"
  by (cases s) (auto simp add: handleVolumeChange_def handleBrightnessChange_def Let_def)

lemma level_state:
  "state w' = state w \<Longrightarrow> level s w' = level s w"
  by (cases s) simp_all

lemma passive_run:
  assumes "list_all is_passive evs"
  shows "\<exists>w'. run evs w = Some w' \<and> timers w' = timers w \<and> next_timer w' = next_timer w \<and>
     slot s w' = slot s w \<and> calls w' = calls w \<and> now w \<le> now w' \<and>
     level s w' = fold (write1 s) evs (level s w)"
  using assms
proof (induction evs arbitrary: w)
  case Nil
  then show ?case by simp
next
  case (Cons e evs)
  from Cons.prems have "is_passive e" and rest: "list_all is_passive evs"
    by simp_all
  from passive_step [OF this(1), of w s] obtain w1 where w1:
    "step e w = Some w1" "timers w1 = timers w" "next_timer w1 = next_timer w"
    "slot s w1 = slot s w" "calls w1 = calls w" "now w \<le> now w1"
    "level s w1 = write1 s e (level s w)"
    by blast
  from Cons.IH [OF rest, of w1] obtain w' where
    "run evs w1 = Some w'" "timers w' = timers w1" "next_timer w' = next_timer w1"
    "slot s w' = slot s w1" "calls w' = calls w1" "now w1 \<le> now w'"
    "level s w' = fold (write1 s) evs (level s w1)"
    by blast
  with w1 show ?case by simp
qed

text \<open>
  Claim C5, as the code has it. The callback of the debounce timer closes over the value
  read by the commit handler. After a commit with value \<open>v\<close>, followed by any slider
  input and passing of time, the stored level is what the inputs have written (the value
  of the last input of this slider, or the level from before the commit if there was
  none), and the slider's timer is still the one started by that commit; it cannot fire
  before 50 have passed since the commit, and when it fires it sends \<open>v\<close>, not the
  stored level, and leaves \<^verbatim>\<open>state\<close> as it is.
\<close>

theorem commit_sends_captured_value:
  assumes "timers_ok s w" and "list_all is_passive evs"
  shows "\<exists>w1 i. run (change s v # evs) w = Some w1 \<and> calls w1 = calls w \<and>
     level s w1 = fold (write1 s) evs (level s w) \<and>
     debounce_timers s w1 = [(i, now w + 50, debounce_task s v)] \<and>
     (if now w1 < now w + 50 then step (Fire i) w1 = None
      else (\<exists>w2. step (Fire i) w1 = Some w2 \<and>
              calls w2 = calls w @ [(now w1, commit s v)] \<and> state w2 = state w1))"
proof -
  from change_step [OF assms(1), of v] obtain wa where wa:
    "step (change s v) w = Some wa" "timers_ok s wa" "calls wa = calls w" "now wa = now w"
    "debounce_timers s wa = [(next_timer w, now w + 50, debounce_task s v)]"
    by blast
  from passive_run [OF assms(2), of wa s] obtain w1 where w1:
    "run evs wa = Some w1" "timers w1 = timers wa" "next_timer w1 = next_timer wa"
    "slot s w1 = slot s wa" "calls w1 = calls wa" "now wa \<le> now w1"
    "level s w1 = fold (write1 s) evs (level s wa)"
    by blast
  have l: "level s w1 = fold (write1 s) evs (level s w)"
    using w1(7) level_state [OF change_keeps_state [OF wa(1)], of s] by simp
  note same = timers_ok_cong [OF w1(2,3,4)]
  have ok: "timers_ok s w1"
    using wa(2) same(1) by simp
  have live: "debounce_timers s w1 = [(next_timer w, now w + 50, debounce_task s v)]"
    using wa(5) same(2) by simp
  have r: "run (change s v # evs) w = Some w1"
    using wa(1) w1(1) by simp
  have c: "calls w1 = calls w"
    using wa(3) w1(5) by simp
  show ?thesis
  proof (cases "now w1 < now w + 50")
    case True
    from fire_debounce(1) [OF ok live True] True r c l live show ?thesis by simp
  next
    case False
    then have "now w + 50 \<le> now w1" by simp
    from fire_debounce(2) [OF ok live this] False r c l live show ?thesis by auto
  qed
qed

theorem commit_sends_captured_value_witness:
  "timers_ok Volume w0 \<and> list_all is_passive [Advance 10, VolumeInput 80, Advance 40] \<and>
   (\<exists>w1 i w2. run [VolumeChange 30, Advance 10, VolumeInput 80, Advance 40] w0 = Some w1 \<and>
      level Volume w1 = 80 \<and>
      step (Fire i) w1 = Some w2 \<and> calls w2 = [(now w1, Set_volume 30)])"
proof -
  have h: "timers_ok Volume w0" "list_all is_passive [Advance 10, VolumeInput 80, Advance 40]"
    by (simp_all add: timers_ok_def debounce_timers_def start_defs)
  have c: "calls w0 = []" "now w0 = 0"
    by (simp_all add: start_defs)
  from commit_sends_captured_value [OF h, of 30] obtain w1 i where w1:
    "run (change Volume 30 # [Advance 10, VolumeInput 80, Advance 40]) w0 = Some w1"
    "level Volume w1 = fold (write1 Volume) [Advance 10, VolumeInput 80, Advance 40] (level Volume w0)"
    "if now w1 < now w0 + 50 then step (Fire i) w1 = None
      else (\<exists>w2. step (Fire i) w1 = Some w2 \<and>
              calls w2 = calls w0 @ [(now w1, commit Volume 30)] \<and> state w2 = state w1)"
    by blast
  from w1(1) have "now w1 = 50"
    by (auto simp add: handler_defs start_defs)
  with w1(3) c obtain w2 where
    "step (Fire i) w1 = Some w2" "calls w2 = [(now w1, Set_volume 30)]"
    by auto
  moreover from w1(2) have "level Volume w1 = 80"
    by simp
  ultimately show ?thesis
    using w1(1) h by auto
qed

text \<open>
  Claim C5 as stated fails: a commit of 30, an input of 80 ten units later, and the timer
  fired at 50 send \<^verbatim>\<open>set_volume\<close> with 30 while \<^verbatim>\<open>state.volume\<close> is 80.
\<close>

theorem stale_commit_counterexample:
  "map_option calls (run [VolumeChange 30, Advance 10, VolumeInput 80, Advance 40, Fire 1] w0)
     = Some [(50, Set_volume 30)] \<and>
   map_option (level Volume) (run [VolumeChange 30, Advance 10, VolumeInput 80, Advance 40, Fire 1] w0)
     = Some 80"
  by (simp add: handler_defs start_defs Let_def)

subsection \<open>Mute\<close>

text \<open>
  Claim C6, as the code has it. \<^verbatim>\<open>toggleMute\<close> has no pending guard and writes nothing
  before its call: every click delegates \<^verbatim>\<open>toggle_mute\<close> at once and leaves \<^verbatim>\<open>state\<close>
  and the mute icon as they are. When the call resolves, \<^verbatim>\<open>state.muted\<close> becomes the
  value the backend returned and the volume UI is redrawn; when it is rejected, \<^verbatim>\<open>state\<close>
  stays as it is.
\<close>

theorem mute_toggle_unguarded:
  "\<exists>w1. step MuteClick w = Some w1 \<and> state w1 = state w \<and>
     volumeMuted_shown (elements w1) = volumeMuted_shown (elements w) \<and>
     calls w1 = calls w @ [(now w, Toggle_mute)] \<and>
     (fresh_calls w \<and> answers Toggle_mute (Resolved (VBool b)) w \<longrightarrow>
        (\<exists>w2. step (Settle (next_call w) (Resolved (VBool b))) w1 = Some w2 \<and>
           muted (state w2) = b \<and> volumeMuted_shown (elements w2) = b)) \<and>
     (fresh_calls w \<and> answers Toggle_mute (Rejected e) w \<longrightarrow>
        (\<exists>w3. step (Settle (next_call w) (Rejected e)) w1 = Some w3 \<and> state w3 = state w))"
  by (simp add: toggleMute_def answers_def settle_new updateVolumeUI_def)

theorem mute_toggle_unguarded_witness:
  "fresh_calls w0 \<and> answers Toggle_mute (Resolved (VBool True)) w0 \<and>
   (\<exists>w1 w2. step MuteClick w0 = Some w1 \<and> state w1 = state w0 \<and>
      step (Settle 1 (Resolved (VBool True))) w1 = Some w2 \<and> muted (state w2))"
proof -
  have h: "fresh_calls w0 \<and> answers Toggle_mute (Resolved (VBool True)) w0"
    by (simp add: fresh_calls_def answers_def fate_of_def start_defs)
  have c: "next_call w0 = 1"
    by (simp add: start_defs)
  from mute_toggle_unguarded [of w0 True] h c
  show ?thesis by auto
qed

text \<open>
  Claim C6 as stated fails: two clicks on the mute button in a row delegate
  \<^verbatim>\<open>toggle_mute\<close> twice, and the first click changes neither \<^verbatim>\<open>state\<close> nor the page.
\<close>

theorem mute_not_guarded_counterexample:
  "map_option calls (run [MuteClick, MuteClick] w0) = Some [(0, Toggle_mute), (0, Toggle_mute)] \<and>
   map_option state (step MuteClick w0) = Some (state w0) \<and>
   map_option elements (step MuteClick w0) = Some (elements w0)"
  by (simp add: toggleMute_def invoke_def register_def fate_of_def start_defs)

subsection \<open>The gateway\<close>

text \<open>
  Claim C8, as the code has it. \<^verbatim>\<open>invoke\<close> logs and registers the call and changes
  neither \<^verbatim>\<open>state\<close> nor the unhandled rejections. It never throws: when the bridge
  throws at once, the call is registered all the same and can only settle as the
  rejection with the error thrown. When the bridge takes the call, or the mock answers,
  \<^verbatim>\<open>invoke\<close> leaves the page and the timers alone, and when the call resolves \<^verbatim>\<open>invoke\<close>
  does nothing more. When the call fails, \<^verbatim>\<open>invoke\<close> leaves \<^verbatim>\<open>state\<close> as it is, but on
  a page with a toast element it shows the error toast with the text \<^verbatim>\<open>Error: \<close> and the
  cause: when the rejection arrives, or at once when the bridge throws at once.
\<close>

theorem invoke_effects:
  "state (invoke c k w) = state w \<and> unhandled (invoke c k w) = unhandled w \<and>
   calls (invoke c k w) = calls w @ [(now w, c)] \<and>
   inflight (invoke c k w) = inflight w @ [(next_call w, c, k, fate_of c w)] \<and>
   (tauri w \<noteq> NoTauri \<and> bridge w c = ThrowsNow e \<longrightarrow>
      fate_of c w = Thrown e \<and> admits (fate_of c w) r = (r = Rejected e)) \<and>
   (tauri w = NoTauri \<or> bridge w c = Accepts \<longrightarrow>
      elements (invoke c k w) = elements w \<and> timers (invoke c k w) = timers w) \<and>
   invoke_settled f (Resolved v) w = w \<and>
   state (invoke_settled f (Rejected e) w) = state w \<and>
   (toast (elements w) \<noteq> None \<longrightarrow>
      toast (elements (invoke_settled Open (Rejected e) w))
        = Some \<lparr>toast_text = ''Error: '' @ e, toast_type = Error, toast_show = True\<rparr> \<and>
      (tauri w \<noteq> NoTauri \<and> bridge w c = ThrowsNow e \<longrightarrow>
         toast (elements (invoke c k w))
           = Some \<lparr>toast_text = ''Error: '' @ e, toast_type = Error, toast_show = True\<rparr>))"
proof -
  have t: "toast (elements w) \<noteq> None \<longrightarrow>
      toast (elements (showToast (''Error: '' @ e) Error w))
        = Some \<lparr>toast_text = ''Error: '' @ e, toast_type = Error, toast_show = True\<rparr>"
    by (auto simp add: showToast_def setTimeout_def Let_def)
  have a: "tauri w \<noteq> NoTauri \<and> bridge w c = ThrowsNow e \<longrightarrow>
      fate_of c w = Thrown e \<and> admits (fate_of c w) r = (r = Rejected e) \<and>
      elements (invoke c k w) = elements (showToast (''Error: '' @ e) Error w)"
    by (simp add: fate_of_def invoke_def register_def)
  have b: "tauri w = NoTauri \<or> bridge w c = Accepts \<longrightarrow>
      elements (invoke c k w) = elements w \<and> timers (invoke c k w) = timers w"
    by (auto simp add: fate_of_def invoke_def register_def)
  from t a b show ?thesis by simp
qed

theorem invoke_effects_witness:
  "toast (elements w0) \<noteq> None \<and> tauri w0 \<noteq> NoTauri \<and> bridge w0 Toggle_mute = Accepts \<and>
   elements (invoke Toggle_mute K_toggleMute w0) = elements w0 \<and>
   toast (elements (invoke_settled Open (Rejected ''denied'') w0))
     = Some \<lparr>toast_text = ''Error: denied'', toast_type = Error, toast_show = True\<rparr> \<and>
   bridge (w0\<lparr>bridge := \<lambda>c. ThrowsNow ''bad args''\<rparr>) Toggle_mute = ThrowsNow ''bad args'' \<and>
   fate_of Toggle_mute (w0\<lparr>bridge := \<lambda>c. ThrowsNow ''bad args''\<rparr>) = Thrown ''bad args'' \<and>
   toast (elements (invoke Toggle_mute K_toggleMute (w0\<lparr>bridge := \<lambda>c. ThrowsNow ''bad args''\<rparr>)))
     = Some \<lparr>toast_text = ''Error: bad args'', toast_type = Error, toast_show = True\<rparr>"
proof -
  let ?bad = "w0\<lparr>bridge := \<lambda>c. ThrowsNow ''bad args''\<rparr>"
  have h: "toast (elements w0) \<noteq> None" "tauri w0 \<noteq> NoTauri" "bridge w0 Toggle_mute = Accepts"
    and g: "toast (elements ?bad) \<noteq> None" "tauri ?bad \<noteq> NoTauri"
      "bridge ?bad Toggle_mute = ThrowsNow ''bad args''"
    by (simp_all add: start_defs)
  note i = invoke_effects [of Toggle_mute K_toggleMute w0 "''denied''" "Rejected ''denied''" Open VNull]
  have a1: "elements (invoke Toggle_mute K_toggleMute w0) = elements w0"
    using i h(3) by (simp only: simp_thms)
  have a2: "toast (elements (invoke_settled Open (Rejected ''denied'') w0))
     = Some \<lparr>toast_text = ''Error: denied'', toast_type = Error, toast_show = True\<rparr>"
    using i h(1) by (simp only: simp_thms append.simps)
  note j = invoke_effects [of Toggle_mute K_toggleMute ?bad "''bad args''" "Rejected ''bad args''"
      Open VNull]
  have b1: "fate_of Toggle_mute ?bad = Thrown ''bad args''"
    using j g(2,3) by (simp only: simp_thms)
  have b2: "toast (elements (invoke Toggle_mute K_toggleMute ?bad))
     = Some \<lparr>toast_text = ''Error: bad args'', toast_type = Error, toast_show = True\<rparr>"
    using j g by (simp only: simp_thms append.simps)
  show ?thesis
    by (intro conjI h g(3) a1 a2 b1 b2)
qed

text \<open>
  Claim C8 as stated fails: when a call is rejected, \<^verbatim>\<open>invoke\<close> itself replaces the
  toast of the page with an error message.
\<close>

theorem gateway_shows_toast_counterexample:
  "toast (elements w0) = Some \<lparr>toast_text = [], toast_type = Info, toast_show = False\<rparr> \<and>
   toast (elements (invoke_settled Open (Rejected ''boom'') w0))
     = Some \<lparr>toast_text = ''Error: boom'', toast_type = Error, toast_show = True\<rparr>"
  by (simp add: showToast_def setTimeout_def clear_if_set_def Let_def start_defs)

subsection \<open>Slider values\<close>

lemma slider_value_passes_through:
  "map_option (level s) (step (input s v) w) = Some v \<and>
   map_option calls (run [change s v, Advance 50, Fire 1] w0) = Some [(50, commit s v)]"
  by (cases s) (simp_all add: handler_defs start_defs Let_def)

text \<open>
  Claim C3. What the code does with a slider value outside the control's range: the input
  handlers store it and the commit handlers send it as it is. A brightness of 0 is stored
  as 0 and sent as 0; a volume of 150 is stored as 150 and a volume of -10 is sent as -10.
  Only the arrow keys bound the value they write, on the side they move to.
\<close>

theorem slider_values_not_clamped:
  "map_option (level Brightness) (step (BrightnessInput 0) w0) = Some 0 \<and>
   map_option calls (run [BrightnessChange 0, Advance 50, Fire 1] w0)
     = Some [(50, Set_brightness 0)] \<and>
   map_option (level Volume) (step (VolumeInput 150) w0) = Some 150 \<and>
   map_option calls (run [VolumeChange (- 10), Advance 50, Fire 1] w0)
     = Some [(50, Set_volume (- 10))]"
  by (simp add: handler_defs start_defs Let_def)

subsection \<open>Rejections\<close>

lemma rejections_caught_elsewhere:
  "map_option unhandled (resume k (Rejected e) w)
     = Some (if k = K_wifiStatus \<or> k = K_suspend then unhandled w @ [e] else unhandled w)"
  by (cases k)
     (simp_all add: composite_defs hideLoading_def setTimeout_def release_def
        updateWifiUI_def updateBluetoothUI_def updateNightLightUI_def split: option.split)

text \<open>
  Claim C7. What the code does when a deferred call is rejected. After a WiFi toggle has
  succeeded, the status fetch started by the timer of 1000 is awaited outside any
  \<^verbatim>\<open>try\<close>: its rejection is left unhandled. After a click on suspend, the suspend
  command started by the timer of 100 is awaited inside the timer callback, which the
  \<^verbatim>\<open>try\<close> of \<^verbatim>\<open>suspendSystem\<close> does not cover: its rejection is left unhandled too, and
  the toast shows the message of \<^verbatim>\<open>invoke\<close>, not \<^verbatim>\<open>Failed to suspend\<close>.
\<close>

theorem deferred_rejections_unhandled:
  "map_option unhandled
     (run [WifiClick, Settle 1 (Resolved (VBool True)), Advance 1000, Fire 1,
           Settle 2 (Rejected ''down'')] w0) = Some [''down''] \<and>
   map_option unhandled
     (run [SuspendClick, Settle 1 (Resolved VNull), Advance 100, Fire 2,
           Settle 2 (Rejected ''denied'')] w0) = Some [''denied''] \<and>
   map_option (map_option toast_text \<circ> toast \<circ> elements)
     (run [SuspendClick, Settle 1 (Resolved VNull), Advance 100, Fire 2,
           Settle 2 (Rejected ''denied'')] w0) = Some (Some ''Error: denied'')"
  by (simp add: handler_defs start_defs Let_def)

subsection \<open>The standing assumptions hold in every world that can be reached\<close>

text \<open>
  \<open>timers_ok\<close> and \<open>fresh_calls\<close>, assumed of the world in the theorems above, hold at
  start and are kept by every event.
\<close>

lemma timers_ok_setTimeout:
  assumes "timers_ok s w" and "\<not> is_debounce s f"
  shows "timers_ok s (snd (setTimeout f d w))"
proof -
  have "next_timer w \<notin> fst ` set (timers w)"
    using assms(1) by (auto simp: timers_ok_def list_all_iff)
  with assms show ?thesis
    by (cases s) (auto simp: timers_ok_def debounce_timers_def setTimeout_def list_all_iff)
qed

lemma timers_ok_clearTimeout:
  assumes "timers_ok s w"
  shows "timers_ok s (clearTimeout i w)"
  using assms
  by (cases s) (auto simp: timers_ok_def debounce_timers_def clearTimeout_def list_all_iff distinct_map_filter)

lemma timers_ok_clear_if_set:
  "timers_ok s w \<Longrightarrow> timers_ok s (clear_if_set v w)"
  by (cases v) (simp_all add: clear_if_set_def timers_ok_clearTimeout)

lemma timers_ok_frame [simp]:
  "timers_ok s (w\<lparr>state := x\<rparr>) = timers_ok s w"
  "timers_ok s (w\<lparr>elements := y\<rparr>) = timers_ok s w"
  "timers_ok s (w\<lparr>now := n\<rparr>) = timers_ok s w"
  "timers_ok s (w\<lparr>inflight := fl\<rparr>) = timers_ok s w"
  "timers_ok s (w\<lparr>next_call := nc\<rparr>) = timers_ok s w"
  "timers_ok s (w\<lparr>calls := cs\<rparr>) = timers_ok s w"
  "timers_ok s (w\<lparr>unhandled := u\<rparr>) = timers_ok s w"
  "timers_ok s (w\<lparr>toastTimer := tt\<rparr>) = timers_ok s w"
  "timers_ok Volume (w\<lparr>brightnessDebounceTimer := tt\<rparr>) = timers_ok Volume w"
  "timers_ok Brightness (w\<lparr>volumeDebounceTimer := tt\<rparr>) = timers_ok Brightness w"
  "timers_ok s (acquire p w) = timers_ok s w"
  "timers_ok s (release p w) = timers_ok s w"
  "timers_ok s (updateVolumeUI w) = timers_ok s w"
  "timers_ok s (updateBrightnessUI w) = timers_ok s w"
  "timers_ok s (updateWifiUI w) = timers_ok s w"
  "timers_ok s (updateBluetoothUI w) = timers_ok s w"
  "timers_ok s (updateNightLightUI w) = timers_ok s w"
  "timers_ok s (hideLoading w) = timers_ok s w"
  "timers_ok s (showLoading w) = timers_ok s w"
  "timers_ok s (toastHide w) = timers_ok s w"
  by (cases s; simp add: timers_ok_def debounce_timers_def acquire_def release_def
        updateVolumeUI_def updateBrightnessUI_def updateWifiUI_def updateBluetoothUI_def
        updateNightLightUI_def hideLoading_def showLoading_def toastHide_def Let_def
        split: option.split)+

lemma not_debounce [simp]:
  "\<not> is_debounce s T_toastHide" "\<not> is_debounce s T_wifiStatus" "\<not> is_debounce s T_suspend"
  by (cases s; simp)+

lemma timers_ok_showToast:
  assumes "timers_ok s w"
  shows "timers_ok s (showToast m t w)"
  using assms
  by (simp add: showToast_def Let_def timers_ok_setTimeout timers_ok_clear_if_set split: option.split)

lemma timers_ok_invoke_settled:
  "timers_ok s w \<Longrightarrow> timers_ok s (invoke_settled f r w)"
  by (cases f; cases r) (simp_all add: timers_ok_showToast)

lemma timers_ok_invoke:
  "timers_ok s w \<Longrightarrow> timers_ok s (invoke c k w)"
  by (cases "fate_of c w") (simp_all add: invoke_def register_def timers_ok_showToast)

lemmas timers_ok_keep =
  timers_ok_setTimeout timers_ok_clear_if_set timers_ok_clearTimeout timers_ok_showToast
  timers_ok_invoke_settled timers_ok_invoke

lemma change_elements:
  "handleVolumeChange v (w\<lparr>elements := y\<rparr>) = (handleVolumeChange v w)\<lparr>elements := y\<rparr>"
  "handleBrightnessChange v (w\<lparr>elements := y\<rparr>) = (handleBrightnessChange v w)\<lparr>elements := y\<rparr>"
  by (simp_all add: handleVolumeChange_def handleBrightnessChange_def clear_if_set_def
        clearTimeout_def setTimeout_def Let_def split: option.split)

lemma timers_ok_change:
  assumes "timers_ok s w"
  shows "timers_ok s (handleVolumeChange v w)" and "timers_ok s (handleBrightnessChange v w)"
proof -
  from change_step [OF assms, of v]
  have same: "\<exists>w'. step (change s v) w = Some w' \<and> timers_ok s w'"
    by blast
  show "timers_ok s (handleVolumeChange v w)"
  proof (cases s)
    case Volume
    with same show ?thesis by (simp add: change_elements)
  next
    case Brightness
    with assms show ?thesis
      by (simp add: handleVolumeChange_def Let_def timers_ok_keep)
  qed
  show "timers_ok s (handleBrightnessChange v w)"
  proof (cases s)
    case Brightness
    with same show ?thesis by (simp add: change_elements)
  next
    case Volume
    with assms show ?thesis
      by (simp add: handleBrightnessChange_def Let_def timers_ok_keep)
  qed
qed

lemmas flat_defs =
  handleVolumeInput_def toggleMute_def refreshVolume_def
  handleBrightnessInput_def refreshBrightness_def
  toggleWifi_def toggleBluetooth_def toggleNightLight_def
  closeWindow_def closeWindow_settled_def suspendSystem_def loadInitialState_def
  unhandledRejection_def stepVolume_def stepBrightness_def updateAllUI_def Let_def

lemma timers_ok_resume:
  assumes "timers_ok s w" and "resume k r w = Some w'"
  shows "timers_ok s w'"
proof (cases r)
  case (Resolved v)
  with assms show ?thesis
    by (cases k; cases v) (auto simp add: flat_defs timers_ok_keep)
next
  case (Rejected x)
  with assms show ?thesis
    by (cases k) (auto simp add: flat_defs timers_ok_keep)
qed

lemma timers_ok_step:
  assumes "timers_ok s w" and "step e w = Some w'"
  shows "timers_ok s w'"
proof (cases e)
  case (Fire i)
  with assms(2) obtain t where "w' = run_task (snd (snd t)) (clearTimeout i w)"
    by (auto simp: fire_def split: option.splits if_splits)
  with timers_ok_clearTimeout [OF assms(1), of i] show ?thesis
    by (cases "snd (snd t)") (simp_all add: timers_ok_invoke)
next
  case (Settle c r)
  with assms(2) obtain k f where
    "resume k r (invoke_settled f r (w\<lparr>inflight := filter (\<lambda>q. fst q \<noteq> c) (inflight w)\<rparr>)) = Some w'"
    by (auto simp: settle_def split: option.splits if_splits)
  moreover have "timers_ok s (invoke_settled f r (w\<lparr>inflight := filter (\<lambda>q. fst q \<noteq> c) (inflight w)\<rparr>))"
    using assms(1) by (simp add: timers_ok_invoke_settled)
  ultimately show ?thesis
    by (rule timers_ok_resume [rotated])
next
  case (KeyDown k)
  with assms show ?thesis
    by (cases k; cases "activeElement (elements w)")
       (auto simp add: flat_defs timers_ok_keep timers_ok_change)
qed (use assms in \<open>auto simp add: flat_defs timers_ok_keep timers_ok_change split: if_splits\<close>)

lemma timers_ok_init: "timers_ok s (init_world api br page)"
  by (simp add: timers_ok_def debounce_timers_def init_world_def)

lemma timers_ok_run:
  "timers_ok s w \<Longrightarrow> run es w = Some w' \<Longrightarrow> timers_ok s w'"
  by (induction es arbitrary: w) (auto split: option.splits dest: timers_ok_step)

lemma fresh_calls_frame [simp]:
  "fresh_calls (w\<lparr>state := x\<rparr>) = fresh_calls w"
  "fresh_calls (w\<lparr>elements := y\<rparr>) = fresh_calls w"
  "fresh_calls (w\<lparr>now := n\<rparr>) = fresh_calls w"
  "fresh_calls (w\<lparr>unhandled := u\<rparr>) = fresh_calls w"
  "fresh_calls (w\<lparr>toastTimer := tt\<rparr>) = fresh_calls w"
  "fresh_calls (w\<lparr>volumeDebounceTimer := tt\<rparr>) = fresh_calls w"
  "fresh_calls (w\<lparr>brightnessDebounceTimer := tt\<rparr>) = fresh_calls w"
  "fresh_calls (snd (setTimeout f d w)) = fresh_calls w"
  "fresh_calls (clearTimeout i w) = fresh_calls w"
  "fresh_calls (clear_if_set v w) = fresh_calls w"
  "fresh_calls (acquire p w) = fresh_calls w"
  "fresh_calls (release p w) = fresh_calls w"
  "fresh_calls (updateVolumeUI w) = fresh_calls w"
  "fresh_calls (updateBrightnessUI w) = fresh_calls w"
  "fresh_calls (updateWifiUI w) = fresh_calls w"
  "fresh_calls (updateBluetoothUI w) = fresh_calls w"
  "fresh_calls (updateNightLightUI w) = fresh_calls w"
  "fresh_calls (hideLoading w) = fresh_calls w"
  "fresh_calls (showLoading w) = fresh_calls w"
  "fresh_calls (toastHide w) = fresh_calls w"
  by (simp_all add: fresh_calls_def setTimeout_def clearTimeout_def clear_if_set_def
        acquire_def release_def updateVolumeUI_def updateBrightnessUI_def updateWifiUI_def
        updateBluetoothUI_def updateNightLightUI_def hideLoading_def showLoading_def
        toastHide_def Let_def split: option.split)

lemma fresh_calls_showToast [simp]:
  "fresh_calls (showToast m t w) = fresh_calls w"
  by (simp add: showToast_def Let_def split: option.split)

lemma fresh_calls_invoke_settled [simp]:
  "fresh_calls (invoke_settled f r w) = fresh_calls w"
  by (cases f; cases r) simp_all

lemma fresh_calls_change [simp]:
  "fresh_calls (handleVolumeChange v w) = fresh_calls w"
  "fresh_calls (handleBrightnessChange v w) = fresh_calls w"
  by (simp_all add: handleVolumeChange_def handleBrightnessChange_def Let_def)

lemma fresh_calls_invoke:
  "fresh_calls w \<Longrightarrow> fresh_calls (invoke c k w)"
  by (auto simp add: fresh_calls_def list_all_iff)

lemma fresh_calls_filter:
  "fresh_calls w \<Longrightarrow> fresh_calls (w\<lparr>inflight := filter P (inflight w)\<rparr>)"
  by (auto simp add: fresh_calls_def list_all_iff)

lemma fresh_calls_resume:
  assumes "fresh_calls w" and "resume k r w = Some w'"
  shows "fresh_calls w'"
proof (cases r)
  case (Resolved v)
  with assms show ?thesis
    by (cases k; cases v) (auto simp add: flat_defs fresh_calls_invoke)
next
  case (Rejected x)
  with assms show ?thesis
    by (cases k) (auto simp add: flat_defs fresh_calls_invoke)
qed

lemma fresh_calls_step:
  assumes "fresh_calls w" and "step e w = Some w'"
  shows "fresh_calls w'"
proof (cases e)
  case (Fire i)
  with assms(2) obtain t where "w' = run_task (snd (snd t)) (clearTimeout i w)"
    by (auto simp: fire_def split: option.splits if_splits)
  with assms(1) show ?thesis
    by (cases "snd (snd t)") (simp_all add: fresh_calls_invoke)
next
  case (Settle c r)
  with assms(2) obtain k f where
    "resume k r (invoke_settled f r (w\<lparr>inflight := filter (\<lambda>q. fst q \<noteq> c) (inflight w)\<rparr>)) = Some w'"
    by (auto simp: settle_def split: option.splits if_splits)
  moreover have "fresh_calls (invoke_settled f r (w\<lparr>inflight := filter (\<lambda>q. fst q \<noteq> c) (inflight w)\<rparr>))"
    using assms(1) by (simp add: fresh_calls_filter)
  ultimately show ?thesis
    by (rule fresh_calls_resume [rotated])
next
  case (KeyDown k)
  with assms show ?thesis
    by (cases k; cases "activeElement (elements w)")
       (auto simp add: flat_defs fresh_calls_invoke)
qed (use assms in \<open>auto simp add: flat_defs fresh_calls_invoke split: if_splits\<close>)

lemma fresh_calls_init: "fresh_calls (init_world api br page)"
  by (simp add: fresh_calls_def init_world_def)


end
